theory Spec2Isabelle
  imports Main "HOL-Library.Word" "HOL-Library.Signed_Division"
begin

unbundle bit_operations_syntax

section \<open>Shader key properties (qssgrendershaderkeys_p.h)\<close>

text \<open>
  The data store of a key (\<open>QSSGDataRef<quint32>\<close>) is a list of 32-bit words. An
  index outside the store is an error of the model (\<open>None\<close>): the source asserts on it.
  A property's \<open>offset\<close> is a \<open>quint32\<close> that counts bits; it is a natural number here,
  and the declared property list keeps it far below \<open>2 ^ 32\<close> (see \<open>init_offset_value\<close>).
\<close>

type_synonym quint32 = "32 word"
type_synonym size_t = "64 word"

subsection \<open>QSSGShaderKeyPropertyBase\<close>

text \<open>\<open>getMaskTemplate<TBitWidth>\<close>: \<open>((1 << TBitWidth) - 1) << (offset % 32)\<close>.\<close>

definition getMaskTemplate :: "nat \<Rightarrow> nat \<Rightarrow> quint32" where
  "getMaskTemplate TBitWidth offset =
     (let bit = offset mod 32;
          startValue = push_bit TBitWidth (1 :: quint32) - 1;
          mask = push_bit bit startValue
      in mask)"

definition getIdx :: "nat \<Rightarrow> nat" where
  "getIdx offset = offset div 32"

subsection \<open>QSSGShaderKeyBoolean\<close>

definition boolSetValue :: "nat \<Rightarrow> quint32 list \<Rightarrow> bool \<Rightarrow> quint32 list option" where
  "boolSetValue offset inDataStore inValue =
     (let idx = getIdx offset in
      if \<not> idx < length inDataStore then None
      else
        let mask = getMaskTemplate 1 offset;
            target = inDataStore ! idx
        in if inValue then Some (inDataStore[idx := target OR mask])
           else Some (inDataStore[idx := target AND NOT mask]))"

definition boolGetValue :: "nat \<Rightarrow> quint32 list \<Rightarrow> bool option" where
  "boolGetValue offset inDataStore =
     (let idx = getIdx offset;
          mask = getMaskTemplate 1 offset
      in if \<not> idx < length inDataStore then None
         else Some ((inDataStore ! idx) AND mask \<noteq> 0))"

subsection \<open>QSSGShaderKeyUnsigned<TBitWidth>\<close>

definition setValue :: "nat \<Rightarrow> nat \<Rightarrow> quint32 list \<Rightarrow> quint32 \<Rightarrow> quint32 list option" where
  "setValue TBitWidth offset inDataStore inValue =
     (let startValue = push_bit TBitWidth (1 :: quint32) - 1;
          inValue1 = inValue AND startValue;
          bit = offset mod 32;
          mask = getMaskTemplate TBitWidth offset;
          idx = getIdx offset;
          inValue2 = push_bit bit inValue1
      in if \<not> idx < length inDataStore then None
         else
           let target = inDataStore ! idx;
               inverseMask = NOT mask;
               target1 = target AND inverseMask;
               target2 = target1 OR inValue2
           in Some (inDataStore[idx := target2]))"

definition getValue :: "nat \<Rightarrow> nat \<Rightarrow> quint32 list \<Rightarrow> quint32 option" where
  "getValue TBitWidth offset inDataStore =
     (let idx = getIdx offset;
          bit = offset mod 32;
          mask = getMaskTemplate TBitWidth offset
      in if \<not> idx < length inDataStore then None
         else
           let target = inDataStore ! idx;
               retval = target AND mask
           in Some (drop_bit bit retval))"

subsection \<open>The property list of the default material key\<close>

text \<open>
  One constructor per property class of the source; \<open>BitWidth\<close> is the class's
  \<open>enum { BitWidth = ... }\<close>. The subclasses of \<open>QSSGShaderKeyUnsigned<N>\<close> inherit its width.
\<close>

datatype PropType =
    KeyBoolean
  | KeyUnsigned nat
  | KeyTextureChannel
  | KeyTextureSwizzle
  | KeyImageMap
  | KeySpecularModel
  | KeyAlphaMode
  | KeyVertexAttribute

fun BitWidth :: "PropType \<Rightarrow> nat" where
  "BitWidth KeyBoolean = 1"
| "BitWidth (KeyUnsigned TBitWidth) = TBitWidth"
| "BitWidth KeyTextureChannel = 2"
| "BitWidth KeyTextureSwizzle = 5"
| "BitWidth KeyImageMap = 6"
| "BitWidth KeySpecularModel = 2"
| "BitWidth KeyAlphaMode = 2"
| "BitWidth KeyVertexAttribute = 8"

record Prop =
  name :: string
  offset :: nat
  ptype :: PropType

text \<open>The constructor of a property: the name, and offset 0.\<close>

definition mkProp :: "PropType \<Rightarrow> string \<Rightarrow> Prop" where
  "mkProp t inName = \<lparr>name = inName, offset = 0, ptype = t\<rparr>"

definition LightCount :: nat where "LightCount = 15"

definition lightFlagNames :: "string list" where
  "lightFlagNames =
     [''light0HasPosition'', ''light1HasPosition'', ''light2HasPosition'',
      ''light3HasPosition'', ''light4HasPosition'', ''light5HasPosition'',
      ''light6HasPosition'', ''light7HasPosition'', ''light8HasPosition'',
      ''light9HasPosition'', ''light10HasPosition'', ''light11HasPosition'',
      ''light12HasPosition'', ''light13HasPosition'', ''light14HasPosition'']"

definition lightSpotFlagNames :: "string list" where
  "lightSpotFlagNames =
     [''light0HasSpot'', ''light1HasSpot'', ''light2HasSpot'',
      ''light3HasSpot'', ''light4HasSpot'', ''light5HasSpot'',
      ''light6HasSpot'', ''light7HasSpot'', ''light8HasSpot'',
      ''light9HasSpot'', ''light10HasSpot'', ''light11HasSpot'',
      ''light12HasSpot'', ''light13HasSpot'', ''light14HasSpot'']"

definition lightAreaFlagNames :: "string list" where
  "lightAreaFlagNames =
     [''light0HasArea'', ''light1HasArea'', ''light2HasArea'',
      ''light3HasArea'', ''light4HasArea'', ''light5HasArea'',
      ''light6HasArea'', ''light7HasArea'', ''light8HasArea'',
      ''light9HasArea'', ''light10HasArea'', ''light11HasArea'',
      ''light12HasArea'', ''light13HasArea'', ''light14HasArea'']"

definition lightShadowFlagNames :: "string list" where
  "lightShadowFlagNames =
     [''light0HasShadow'', ''light1HasShadow'', ''light2HasShadow'',
      ''light3HasShadow'', ''light4HasShadow'', ''light5HasShadow'',
      ''light6HasShadow'', ''light7HasShadow'', ''light8HasShadow'',
      ''light9HasShadow'', ''light10HasShadow'', ''light11HasShadow'',
      ''light12HasShadow'', ''light13HasShadow'', ''light14HasShadow'']"

definition imageMapNames :: "string list" where
  "imageMapNames = [''diffuseMap'', ''emissiveMap'', ''specularMap'', ''baseColorMap'',
     ''bumpMap'', ''specularAmountMap'', ''normalMap'', ''lightmapIndirect'',
     ''lightmapRadiosity'', ''lightmapShadow'', ''opacityMap'', ''roughnessMap'',
     ''metalnessMap'', ''occlusionMap'', ''translucencyMap'']"

definition textureChannelNames :: "string list" where
  "textureChannelNames = [''opacityMap_channel'', ''roughnessMap_channel'',
     ''metalnessMap_channel'', ''occlusionMap_channel'', ''translucencyMap_channel'']"

text \<open>
  \<open>visitProperties\<close> visits the members in this order; the list holds them as the
  constructor of \<open>QSSGShaderDefaultMaterialKeyProperties\<close> leaves them before \<open>init()\<close>.
\<close>

definition visitProperties :: "Prop list" where
  "visitProperties =
     [mkProp KeyBoolean ''hasLighting'',
      mkProp KeyBoolean ''hasIbl'',
      mkProp (KeyUnsigned 4) ''lightCount'']
     @ map (mkProp KeyBoolean) lightFlagNames
     @ map (mkProp KeyBoolean) lightSpotFlagNames
     @ map (mkProp KeyBoolean) lightAreaFlagNames
     @ map (mkProp KeyBoolean) lightShadowFlagNames
     @ [mkProp KeyBoolean ''specularEnabled'',
        mkProp KeyBoolean ''fresnelEnabled'',
        mkProp KeyBoolean ''vertexColorsEnabled'',
        mkProp KeySpecularModel ''specularModel'']
     @ concat (map (\<lambda>n. [mkProp KeyImageMap n, mkProp KeyTextureSwizzle (n @ ''_swizzle'')])
                   imageMapNames)
     @ map (mkProp KeyTextureChannel) textureChannelNames
     @ [mkProp (KeyUnsigned 16) ''boneCount'',
        mkProp KeyBoolean ''isDoubleSided'',
        mkProp KeyBoolean ''overridesPosition'',
        mkProp KeyBoolean ''usesProjectionMatrix'',
        mkProp KeyBoolean ''usesInverseProjectionMatrix'',
        mkProp KeyBoolean ''usesPointsTopology'',
        mkProp KeyBoolean ''usesVarColor'',
        mkProp KeyAlphaMode ''alphaMode'',
        mkProp KeyVertexAttribute ''vertexAttributes'',
        mkProp KeyBoolean ''usesFloatJointIndices'']"

subsection \<open>OffsetVisitor and init\<close>

text \<open>\<open>OffsetVisitor::visit\<close>: the property with its offset set, and the new \<open>m_offset\<close>.\<close>

definition offsetVisit :: "nat \<Rightarrow> Prop \<Rightarrow> Prop \<times> nat" where
  "offsetVisit m_offset inProp =
     (let bit = m_offset mod 32;
          m_offset1 = (if bit + BitWidth (ptype inProp) > 31 then m_offset + (32 - bit)
                       else m_offset)
      in (inProp\<lparr>offset := m_offset1\<rparr>, m_offset1 + BitWidth (ptype inProp)))"

fun visitOffsets :: "nat \<Rightarrow> Prop list \<Rightarrow> Prop list \<times> nat" where
  "visitOffsets m_offset [] = ([], m_offset)"
| "visitOffsets m_offset (p # ps) =
     (case offsetVisit m_offset p of (p', m1) \<Rightarrow>
        (case visitOffsets m1 ps of (ps', m2) \<Rightarrow> (p' # ps', m2)))"

text \<open>\<open>init()\<close>: the offset pass from 0, then \<open>Q_ASSERT(m_offset < 320)\<close>.\<close>

definition init :: "Prop list \<Rightarrow> Prop list option" where
  "init props =
     (case visitOffsets 0 props of (props', m_offset) \<Rightarrow>
        if m_offset < 320 then Some props' else None)"

text \<open>
  The claim's words: placing a property of width \<open>w\<close> at the running offset \<open>m\<close> crosses
  a word boundary when its last bit lies in a later word than its first one.
\<close>

definition crossesWordBoundary :: "nat \<Rightarrow> nat \<Rightarrow> bool" where
  "crossesWordBoundary m w = (m div 32 \<noteq> (m + w - 1) div 32)"

subsection \<open>QSSGShaderDefaultMaterialKey: hash and equality\<close>

definition DataBufferSize :: nat where "DataBufferSize = 10"

record QSSGShaderDefaultMaterialKey =
  m_dataBuffer :: "quint32 list"
  m_featureSetHash :: size_t

text \<open>Both constructors zero the ten words.\<close>

definition newKey :: "size_t \<Rightarrow> QSSGShaderDefaultMaterialKey" where
  "newKey inFeatureSetHash =
     \<lparr>m_dataBuffer = replicate DataBufferSize 0, m_featureSetHash = inFeatureSetHash\<rparr>"

text \<open>
  \<open>hash()\<close>. Qt's \<open>qHash(quint32)\<close> is not part of these sources: it is the parameter
  \<open>qHash\<close>.
\<close>

function hashLoop :: "(quint32 \<Rightarrow> size_t) \<Rightarrow> quint32 list \<Rightarrow> nat \<Rightarrow> size_t \<Rightarrow> size_t" where
  "hashLoop qHash buf idx retval =
     (if idx < DataBufferSize then hashLoop qHash buf (idx + 1) (retval XOR qHash (buf ! idx))
      else retval)"
  by pat_completeness auto
termination
  by (relation "measure (\<lambda>(qHash, buf, idx, retval). DataBufferSize - idx)") auto

definition hash :: "(quint32 \<Rightarrow> size_t) \<Rightarrow> QSSGShaderDefaultMaterialKey \<Rightarrow> size_t" where
  "hash qHash k = hashLoop qHash (m_dataBuffer k) 0 0 XOR m_featureSetHash k"

text \<open>\<open>operator==\<close>: the loop runs while \<open>idx < DataBufferSize && retval\<close>.\<close>

function eqLoop :: "quint32 list \<Rightarrow> quint32 list \<Rightarrow> nat \<Rightarrow> bool \<Rightarrow> bool" where
  "eqLoop a b idx retval =
     (if idx < DataBufferSize \<and> retval then eqLoop a b (idx + 1) (a ! idx = b ! idx)
      else retval)"
  by pat_completeness auto
termination
  by (relation "measure (\<lambda>(a, b, idx, retval). DataBufferSize - idx)") auto

definition keyEq :: "QSSGShaderDefaultMaterialKey \<Rightarrow> QSSGShaderDefaultMaterialKey \<Rightarrow> bool" where
  "keyEq k other =
     (eqLoop (m_dataBuffer k) (m_dataBuffer other) 0 True
      \<and> m_featureSetHash k = m_featureSetHash other)"

subsection \<open>Auxiliary functions for the offset pass and the hash\<close>

text \<open>
  The offset that \<open>OffsetVisitor::visit\<close> gives a property of width \<open>w\<close> when the running
  offset is \<open>m\<close>, and the pass over a list of widths; \<open>offsetVisit_nextStart\<close>,
  \<open>visitOffsets_offsets\<close> and \<open>visitOffsets_snd\<close> relate them to the visitor.
\<close>

definition nextStart :: "nat \<Rightarrow> nat \<Rightarrow> nat" where
  "nextStart m w = (if m mod 32 + w > 31 then m + (32 - m mod 32) else m)"

fun offsetsFrom :: "nat \<Rightarrow> nat list \<Rightarrow> nat list" where
  "offsetsFrom m [] = []"
| "offsetsFrom m (w # ws) = nextStart m w # offsetsFrom (nextStart m w + w) ws"

fun finalOffset :: "nat \<Rightarrow> nat list \<Rightarrow> nat" where
  "finalOffset m [] = m"
| "finalOffset m (w # ws) = finalOffset (nextStart m w + w) ws"

definition propWidths :: "Prop list \<Rightarrow> nat list" where
  "propWidths ps = map (\<lambda>p. BitWidth (ptype p)) ps"

definition xorAll :: "size_t list \<Rightarrow> size_t" where
  "xorAll xs = foldr (XOR) xs 0"

section \<open>Keys as strings: toString and fromString\<close>

subsection \<open>QByteArray\<close>

text \<open>
  A byte array is a \<open>string\<close>. \<open>operator[]\<close> asserts that the index lies inside the
  array: \<open>byteAt\<close> is \<open>None\<close> outside. \<open>indexOf\<close> is the first position of the needle
  (\<open>None\<close> for the source's \<open>-1\<close>).
\<close>

fun byteAt :: "string \<Rightarrow> nat \<Rightarrow> char option" where
  "byteAt [] i = None"
| "byteAt (c # cs) 0 = Some c"
| "byteAt (c # cs) (Suc i) = byteAt cs i"

fun startsWith :: "string \<Rightarrow> string \<Rightarrow> bool" where
  "startsWith s [] = True"
| "startsWith [] (n # ns) = False"
| "startsWith (c # cs) (n # ns) = (c = n \<and> startsWith cs ns)"

fun indexOf :: "string \<Rightarrow> string \<Rightarrow> nat option" where
  "indexOf [] needle = (if needle = [] then Some 0 else None)"
| "indexOf (c # cs) needle =
     (if startsWith (c # cs) needle then Some 0 else map_option Suc (indexOf cs needle))"

definition mid :: "string \<Rightarrow> nat \<Rightarrow> nat \<Rightarrow> string" where
  "mid s pos len = take len (drop pos s)"

text \<open>\<open>QByteArray::split\<close>: the pieces between the separators; one empty piece for the
  empty array.\<close>

fun splitBy :: "char \<Rightarrow> string \<Rightarrow> string list" where
  "splitBy sep [] = [[]]"
| "splitBy sep (c # cs) =
     (if c = sep then [] # splitBy sep cs
      else (case splitBy sep cs of [] \<Rightarrow> [[c]] | x # xs \<Rightarrow> (c # x) # xs))"

definition isDigit :: "char \<Rightarrow> bool" where
  "isDigit c = (c \<in> set ''0123456789'')"

text \<open>The loop \<open>while (isDigit(s[i])) i++\<close>: the number of leading digits, and a read
  past the end when the digits run to the end of the array.\<close>

fun digitCount :: "string \<Rightarrow> nat option" where
  "digitCount [] = None"
| "digitCount (c # cs) = (if isDigit c then map_option Suc (digitCount cs) else Some 0)"

text \<open>The loops \<open>while (ioStr[begin + codeOffset] != ch) codeOffset++\<close>.\<close>

fun offsetOfChar :: "char \<Rightarrow> string \<Rightarrow> nat option" where
  "offsetOfChar ch [] = None"
| "offsetOfChar ch (c # cs) = (if c \<noteq> ch then map_option Suc (offsetOfChar ch cs) else Some 0)"

text \<open>\<open>QByteArray::toInt\<close> on a run of digits: 0 for the empty run and for a value that
  does not fit an \<open>int\<close>. The result becomes a \<open>quint32\<close>.\<close>

definition digitValue :: "char \<Rightarrow> nat" where
  "digitValue c = (case indexOf ''0123456789'' [c] of None \<Rightarrow> 0 | Some d \<Rightarrow> d)"

definition toInt :: "string \<Rightarrow> quint32" where
  "toInt s =
     (let v = foldl (\<lambda>a c. 10 * a + digitValue c) 0 s
      in if s = [] \<or> v > 2147483647 then 0 else word_of_nat v)"

text \<open>\<open>snprintf(buffer, size, "%u", item)\<close>.\<close>

function toStr :: "nat \<Rightarrow> string" where
  "toStr item =
     (if item < 10 then [''0123456789'' ! item]
      else toStr (item div 10) @ [''0123456789'' ! (item mod 10)])"
  by pat_completeness auto
termination
  by (relation "measure (\<lambda>item. item)") auto

subsection \<open>What each property writes\<close>

text \<open>
  The two material enumerations are declared outside these sources; the numbers of
  their enumerators are parameters.
\<close>

record MaterialEnums =
  SpecularModel_Default :: quint32
  SpecularModel_KGGX :: quint32
  AlphaMode_Default :: quint32
  AlphaMode_Mask :: quint32
  AlphaMode_Blend :: quint32

text \<open>The static \<open>internalToString(ioStr, name, inValue)\<close>: the text it appends.\<close>

definition internalToString :: "string \<Rightarrow> bool \<Rightarrow> string" where
  "internalToString name' inValue = (if inValue then name' @ ''='' @ ''true'' else [])"

text \<open>\<open>getBitValue\<close> of the flag properties on the value read by \<open>getValue\<close>.\<close>

definition getBitValue :: "quint32 \<Rightarrow> quint32 \<Rightarrow> bool" where
  "getBitValue theValue bitMask = (theValue AND bitMask \<noteq> 0)"

definition textureSwizzleToString :: "string \<Rightarrow> quint32 \<Rightarrow> string" where
  "textureSwizzleToString name' v =
     name' @ ''={''
     @ internalToString ''noswizzle'' (getBitValue v 1) @ '';''
     @ internalToString ''l8swizzle'' (getBitValue v 2) @ '';''
     @ internalToString ''a8swizzle'' (getBitValue v 4) @ '';''
     @ internalToString ''l8a8swizzle'' (getBitValue v 8) @ '';''
     @ internalToString ''l16swizzle'' (getBitValue v 16) @ ''}''"

definition imageMapToString :: "string \<Rightarrow> quint32 \<Rightarrow> string" where
  "imageMapToString name' v =
     name' @ ''={''
     @ internalToString ''enabled'' (getBitValue v 1) @ '';''
     @ internalToString ''envMap'' (getBitValue v 2) @ '';''
     @ internalToString ''lightProbe'' (getBitValue v 4) @ '';''
     @ internalToString ''invertUV'' (getBitValue v 8) @ '';''
     @ internalToString ''premultiplied'' (getBitValue v 16) @ '';''
     @ internalToString ''identity'' (getBitValue v 32) @ ''}''"

definition vertexAttributeToString :: "string \<Rightarrow> quint32 \<Rightarrow> string" where
  "vertexAttributeToString name' v =
     name' @ ''={''
     @ internalToString ''position'' (getBitValue v 1) @ '';''
     @ internalToString ''normal'' (getBitValue v 2) @ '';''
     @ internalToString ''texcoord0'' (getBitValue v 4) @ '';''
     @ internalToString ''texcoord1'' (getBitValue v 8) @ '';''
     @ internalToString ''tangent'' (getBitValue v 16) @ '';''
     @ internalToString ''binormal'' (getBitValue v 32) @ '';''
     @ internalToString ''color'' (getBitValue v 64) @ ''}''
     @ internalToString ''joint&weight'' (getBitValue v 128) @ ''}''"

definition specularModelToString :: "MaterialEnums \<Rightarrow> string \<Rightarrow> quint32 \<Rightarrow> string" where
  "specularModelToString enums name' v =
     name' @ ''=''
     @ (if v = SpecularModel_KGGX enums then ''KGGX''
        else if v = SpecularModel_Default enums then ''Default''
        else [])
     @ '';''"

definition alphaModeToString :: "MaterialEnums \<Rightarrow> string \<Rightarrow> quint32 \<Rightarrow> string" where
  "alphaModeToString enums name' v =
     name' @ ''=''
     @ (if v = AlphaMode_Default enums then ''Default''
        else if v = AlphaMode_Mask enums then ''Mask''
        else if v = AlphaMode_Blend enums then ''Blend''
        else [])
     @ '';''"

text \<open>
  \<open>prop.toString(ioStr, keySet)\<close>, by the class of the property: the text appended to
  \<open>ioStr\<close>. \<open>QSSGShaderKeyImageMap\<close> and the other subclasses read their value with the
  \<open>getValue\<close> of \<open>QSSGShaderKeyUnsigned\<close>.
\<close>

definition propToString :: "MaterialEnums \<Rightarrow> Prop \<Rightarrow> quint32 list \<Rightarrow> string option" where
  "propToString enums p inKeySet =
     (case ptype p of
        KeyBoolean \<Rightarrow>
          map_option (internalToString (name p)) (boolGetValue (offset p) inKeySet)
      | KeyUnsigned w \<Rightarrow>
          map_option (\<lambda>v. name p @ ''='' @ toStr (unat v)) (getValue w (offset p) inKeySet)
      | KeyTextureChannel \<Rightarrow>
          map_option (\<lambda>v. name p @ ''='' @ [''RGBA'' ! unat v]) (getValue 2 (offset p) inKeySet)
      | KeyTextureSwizzle \<Rightarrow>
          map_option (textureSwizzleToString (name p)) (getValue 5 (offset p) inKeySet)
      | KeyImageMap \<Rightarrow>
          map_option (imageMapToString (name p)) (getValue 6 (offset p) inKeySet)
      | KeySpecularModel \<Rightarrow>
          map_option (specularModelToString enums (name p)) (getValue 2 (offset p) inKeySet)
      | KeyAlphaMode \<Rightarrow>
          map_option (alphaModeToString enums (name p)) (getValue 2 (offset p) inKeySet)
      | KeyVertexAttribute \<Rightarrow>
          map_option (vertexAttributeToString (name p)) (getValue 8 (offset p) inKeySet))"

text \<open>\<open>StringVisitor::visit\<close>, given the text the property appends.\<close>

definition stringVisit :: "string \<Rightarrow> string \<Rightarrow> string" where
  "stringVisit m_str text' =
     (let originalSize = length m_str;
          s1 = (if m_str \<noteq> [] then m_str @ '';'' else m_str);
          s2 = s1 @ text'
      in if originalSize \<noteq> 0 \<and> length s2 = originalSize + 1 then take originalSize s2 else s2)"

fun toStringLoop ::
    "MaterialEnums \<Rightarrow> Prop list \<Rightarrow> quint32 list \<Rightarrow> string \<Rightarrow> string option" where
  "toStringLoop enums [] inKeySet m_str = Some m_str"
| "toStringLoop enums (p # ps) inKeySet m_str =
     (case propToString enums p inKeySet of
        None \<Rightarrow> None
      | Some text' \<Rightarrow> toStringLoop enums ps inKeySet (stringVisit m_str text'))"

text \<open>\<open>QSSGShaderDefaultMaterialKey::toString(ioString, inProperties)\<close>.\<close>

definition toString ::
    "MaterialEnums \<Rightarrow> Prop list \<Rightarrow> quint32 list \<Rightarrow> string \<Rightarrow> string option" where
  "toString enums inProperties m_dataBuffer' ioString =
     toStringLoop enums inProperties m_dataBuffer' ioString"

subsection \<open>What each property reads\<close>

text \<open>The static \<open>getBoolValue(str, name)\<close>; \<open>None\<close> is a read outside \<open>str\<close>.\<close>

definition getBoolValue :: "string \<Rightarrow> string \<Rightarrow> bool option" where
  "getBoolValue str name' =
     (case indexOf str name' of
        None \<Rightarrow> Some False
      | Some index \<Rightarrow>
          (case byteAt str (index + length name') of
             None \<Rightarrow> None
           | Some c \<Rightarrow>
               if c \<noteq> CHR ''='' then Some False
               else Some (mid str (index + length name' + 1) 4 = ''true'')))"

text \<open>
  \<open>setBitValue\<close> of the flag properties: read the value, set or clear the bit, write
  the value back.
\<close>

definition setBitValue ::
    "nat \<Rightarrow> nat \<Rightarrow> quint32 \<Rightarrow> bool \<Rightarrow> quint32 list \<Rightarrow> quint32 list option" where
  "setBitValue w off bitMask inValue inKeySet =
     (case getValue w off inKeySet of
        None \<Rightarrow> None
      | Some theValue \<Rightarrow>
          setValue w off inKeySet
            (if inValue then theValue OR bitMask else theValue AND NOT bitMask))"

text \<open>A list of flags, each read from its piece of the split list and written in turn.\<close>

fun setFlags ::
    "nat \<Rightarrow> nat \<Rightarrow> (string \<times> string \<times> quint32) list \<Rightarrow> quint32 list \<Rightarrow> quint32 list option" where
  "setFlags w off [] inKeySet = Some inKeySet"
| "setFlags w off ((piece, flagName, bitMask) # flags) inKeySet =
     (case getBoolValue piece flagName of
        None \<Rightarrow> None
      | Some b \<Rightarrow>
          (case setBitValue w off bitMask b inKeySet of
             None \<Rightarrow> None
           | Some ks \<Rightarrow> setFlags w off flags ks))"

text \<open>\<open>QSSGShaderKeyBoolean::fromString\<close>.\<close>

definition booleanFromString :: "Prop \<Rightarrow> string \<Rightarrow> quint32 list \<Rightarrow> quint32 list option" where
  "booleanFromString p ioStr inKeySet =
     (case getBoolValue ioStr (name p) of
        None \<Rightarrow> None
      | Some b \<Rightarrow> boolSetValue (offset p) inKeySet b)"

text \<open>
  \<open>QSSGShaderKeyUnsigned<TBitWidth>::fromString\<close>. \<open>QSSGShaderKeyImageMap\<close> declares
  no \<open>fromString\<close> of its own, so this is also what an image map reads with.
\<close>

definition unsignedFromString ::
    "nat \<Rightarrow> Prop \<Rightarrow> string \<Rightarrow> quint32 list \<Rightarrow> quint32 list option" where
  "unsignedFromString w p ioStr inKeySet =
     (case indexOf ioStr (name p) of
        None \<Rightarrow> Some inKeySet
      | Some strOffset \<Rightarrow>
          (case byteAt ioStr (strOffset + length (name p)) of
             None \<Rightarrow> None
           | Some c \<Rightarrow>
               if c \<noteq> CHR ''='' then Some inKeySet
               else
                 let s = drop (strOffset + length (name p) + 1) ioStr in
                 (case digitCount s of
                    None \<Rightarrow> None
                  | Some i \<Rightarrow> setValue w (offset p) inKeySet (toInt (take i s)))))"

definition textureChannelFromString ::
    "Prop \<Rightarrow> string \<Rightarrow> quint32 list \<Rightarrow> quint32 list option" where
  "textureChannelFromString p ioStr inKeySet =
     (case indexOf ioStr (name p) of
        None \<Rightarrow> Some inKeySet
      | Some strOffset \<Rightarrow>
          (case byteAt ioStr (strOffset + length (name p)) of
             None \<Rightarrow> None
           | Some c \<Rightarrow>
               if c \<noteq> CHR ''='' then Some inKeySet
               else
                 (case byteAt ioStr (strOffset + length (name p) + 1) of
                    None \<Rightarrow> None
                  | Some ch \<Rightarrow>
                      if ch = CHR ''R'' then setValue 2 (offset p) inKeySet 0
                      else if ch = CHR ''G'' then setValue 2 (offset p) inKeySet 1
                      else if ch = CHR ''B'' then setValue 2 (offset p) inKeySet 2
                      else if ch = CHR ''A'' then setValue 2 (offset p) inKeySet 3
                      else Some inKeySet)))"

text \<open>
  The common frame of the two flag-list readers: find the name, \<open>=\<close> and \<open>{\<close>, run to
  the closing brace, split at the semicolons, and go on only with the expected number
  of pieces.
\<close>

definition flagListFromString ::
    "nat \<Rightarrow> (string \<times> quint32) list \<Rightarrow> Prop \<Rightarrow> string \<Rightarrow> quint32 list
       \<Rightarrow> quint32 list option" where
  "flagListFromString w flags p ioStr inKeySet =
     (case indexOf ioStr (name p) of
        None \<Rightarrow> Some inKeySet
      | Some strOffset \<Rightarrow>
          (case byteAt ioStr (strOffset + length (name p)) of
             None \<Rightarrow> None
           | Some c \<Rightarrow>
               if c \<noteq> CHR ''='' then Some inKeySet
               else
                 (case byteAt ioStr (strOffset + length (name p) + 1) of
                    None \<Rightarrow> None
                  | Some c1 \<Rightarrow>
                      if c1 \<noteq> CHR ''{'' then Some inKeySet
                      else
                        let codeOffsetBegin = strOffset + length (name p) + 2 in
                        (case offsetOfChar CHR ''}'' (drop codeOffsetBegin ioStr) of
                           None \<Rightarrow> None
                         | Some codeOffset \<Rightarrow>
                             let list = splitBy CHR '';'' (mid ioStr codeOffsetBegin codeOffset) in
                             if length list \<noteq> length flags then Some inKeySet
                             else setFlags w (offset p) (zip list flags) inKeySet))))"

definition textureSwizzleFlags :: "(string \<times> quint32) list" where
  "textureSwizzleFlags =
     [(''noswizzle'', 1), (''l8swizzle'', 2), (''a8swizzle'', 4), (''l8a8swizzle'', 8),
      (''l16swizzle'', 16)]"

definition vertexAttributeFlags :: "(string \<times> quint32) list" where
  "vertexAttributeFlags =
     [(''position'', 1), (''normal'', 2), (''texcoord0'', 4), (''texcoord1'', 8),
      (''tangent'', 16), (''binormal'', 32), (''color'', 64)]"

text \<open>The two enumeration readers: the text up to the next semicolon names the value.\<close>

definition enumFromString ::
    "(string \<times> quint32) list \<Rightarrow> Prop \<Rightarrow> string \<Rightarrow> quint32 list \<Rightarrow> quint32 list option" where
  "enumFromString values p ioStr inKeySet =
     (case indexOf ioStr (name p) of
        None \<Rightarrow> Some inKeySet
      | Some strOffset \<Rightarrow>
          (case byteAt ioStr (strOffset + length (name p)) of
             None \<Rightarrow> None
           | Some c \<Rightarrow>
               if c \<noteq> CHR ''='' then Some inKeySet
               else
                 let codeOffsetBegin = strOffset + length (name p) + 1 in
                 (case offsetOfChar CHR '';'' (drop codeOffsetBegin ioStr) of
                    None \<Rightarrow> None
                  | Some codeOffset \<Rightarrow>
                      (case map_of values (mid ioStr codeOffsetBegin codeOffset) of
                         None \<Rightarrow> Some inKeySet
                       | Some v \<Rightarrow> setValue 2 (offset p) inKeySet v))))"

definition specularModelValues :: "MaterialEnums \<Rightarrow> (string \<times> quint32) list" where
  "specularModelValues enums =
     [(''KGGX'', SpecularModel_KGGX enums), (''Default'', SpecularModel_Default enums)]"

definition alphaModeValues :: "MaterialEnums \<Rightarrow> (string \<times> quint32) list" where
  "alphaModeValues enums =
     [(''Default'', AlphaMode_Default enums), (''Mask'', AlphaMode_Mask enums),
      (''Blend'', AlphaMode_Blend enums)]"

text \<open>\<open>prop.fromString(ioStr, keySet)\<close>, by the class of the property.\<close>

definition propFromString ::
    "MaterialEnums \<Rightarrow> Prop \<Rightarrow> string \<Rightarrow> quint32 list \<Rightarrow> quint32 list option" where
  "propFromString enums p ioStr inKeySet =
     (case ptype p of
        KeyBoolean \<Rightarrow> booleanFromString p ioStr inKeySet
      | KeyUnsigned w \<Rightarrow> unsignedFromString w p ioStr inKeySet
      | KeyTextureChannel \<Rightarrow> textureChannelFromString p ioStr inKeySet
      | KeyTextureSwizzle \<Rightarrow> flagListFromString 5 textureSwizzleFlags p ioStr inKeySet
      | KeyImageMap \<Rightarrow> unsignedFromString 6 p ioStr inKeySet
      | KeySpecularModel \<Rightarrow> enumFromString (specularModelValues enums) p ioStr inKeySet
      | KeyAlphaMode \<Rightarrow> enumFromString (alphaModeValues enums) p ioStr inKeySet
      | KeyVertexAttribute \<Rightarrow> flagListFromString 8 vertexAttributeFlags p ioStr inKeySet)"

text \<open>\<open>QSSGShaderDefaultMaterialKey::fromString(ioString, inProperties)\<close>.\<close>

fun fromString ::
    "MaterialEnums \<Rightarrow> Prop list \<Rightarrow> string \<Rightarrow> quint32 list \<Rightarrow> quint32 list option" where
  "fromString enums [] ioString m_dataBuffer' = Some m_dataBuffer'"
| "fromString enums (p # ps) ioString m_dataBuffer' =
     (case propFromString enums p ioString m_dataBuffer' of
        None \<Rightarrow> None
      | Some ks \<Rightarrow> fromString enums ps ioString ks)"

subsection \<open>Auxiliary notions for the round trip\<close>

text \<open>The bit of a data store at an absolute bit position.\<close>

definition bitAt :: "quint32 list \<Rightarrow> nat \<Rightarrow> bool" where
  "bitAt ds B = bit (ds ! (B div 32)) (B mod 32)"

text \<open>A property's bit range lies in one word and does not hold position \<open>B\<close>.\<close>

definition awayFrom :: "nat \<Rightarrow> Prop \<Rightarrow> bool" where
  "awayFrom B p =
     (offset p mod 32 + BitWidth (ptype p) \<le> 32
      \<and> (B < offset p \<or> offset p + BitWidth (ptype p) \<le> B))"

text \<open>The properties as \<open>init()\<close> leaves them, with their offsets.\<close>

definition keyProperties :: "Prop list" where
  "keyProperties = fst (visitOffsets 0 visitProperties)"

text \<open>
  The key with nothing set but the \<open>Enabled\<close> flag of \<open>diffuseMap\<close> (offset 73:
  bit 9 of word 2), see \<open>diffuseMapEnabledKey_built\<close>.
\<close>

definition diffuseMapEnabledKey :: "quint32 list" where
  "diffuseMapEnabledKey = (replicate DataBufferSize 0)[2 := 512]"

text \<open>The flags between \<open>lightCount\<close> and \<open>specularModel\<close> in the order of the visit.\<close>

definition leadingFlagNames :: "string list" where
  "leadingFlagNames =
     lightFlagNames @ lightSpotFlagNames @ lightAreaFlagNames @ lightShadowFlagNames
     @ [''specularEnabled'', ''fresnelEnabled'', ''vertexColorsEnabled'']"

section \<open>The XR session manager (QOpenXRManager)\<close>

text \<open>
  The manager is a record of the members the modelled functions read or write. Every
  call into the XR runtime or into a collaborator (the animation driver, the renderer,
  an emitted signal) is appended to \<open>effects\<close>, in program order. What the runtime
  answers is an input of the model: the functions take the answers as arguments.
  A failing \<open>Q_ASSERT\<close>, an index outside a container and a call through a null
  \<open>m_xrOrigin\<close> are errors (\<open>Inl\<close>).
  \<open>checkXrResult\<close> only logs and reports whether the call succeeded; a call whose result
  is checked is modelled with an optional answer, \<open>None\<close> when the check fails.
\<close>

datatype XrError = AssertionFailed | IndexOutOfRange | NullDereference

type_synonym XrHandle = nat

definition XR_NULL_HANDLE :: XrHandle where
  "XR_NULL_HANDLE = 0"

text \<open>\<open>XrTime\<close> and \<open>XrDuration\<close> are 64-bit signed nanoseconds; overflow is undefined
  in the source and not modelled.\<close>

type_synonym XrTime = int
type_synonym XrDuration = int

text \<open>A \<open>float\<close> is its 32-bit pattern: the modelled code copies floats and never computes
  with them. \<open>1.0f\<close> is \<open>0x3F800000\<close>.\<close>

type_synonym float32 = "32 word"

record XrQuaternionf =
  quat_x :: float32
  quat_y :: float32
  quat_z :: float32
  quat_w :: float32

record XrVector3f =
  vec_x :: float32
  vec_y :: float32
  vec_z :: float32

record XrPosef =
  orientation :: XrQuaternionf
  position :: XrVector3f

definition identityPose :: XrPosef where
  "identityPose =
     \<lparr>orientation = \<lparr>quat_x = 0, quat_y = 0, quat_z = 0, quat_w = 0x3F800000\<rparr>,
      position = \<lparr>vec_x = 0, vec_y = 0, vec_z = 0\<rparr>\<rparr>"

datatype XrSessionState =
    XR_SESSION_STATE_UNKNOWN
  | XR_SESSION_STATE_IDLE
  | XR_SESSION_STATE_READY
  | XR_SESSION_STATE_SYNCHRONIZED
  | XR_SESSION_STATE_VISIBLE
  | XR_SESSION_STATE_FOCUSED
  | XR_SESSION_STATE_STOPPING
  | XR_SESSION_STATE_LOSS_PENDING
  | XR_SESSION_STATE_EXITING

datatype XrReferenceSpaceType =
    XR_REFERENCE_SPACE_TYPE_VIEW
  | XR_REFERENCE_SPACE_TYPE_LOCAL
  | XR_REFERENCE_SPACE_TYPE_STAGE
  | XR_REFERENCE_SPACE_TYPE_LOCAL_FLOOR_EXT
  | XR_REFERENCE_SPACE_TYPE_OTHER nat

datatype XrEnvironmentBlendMode =
    XR_ENVIRONMENT_BLEND_MODE_OPAQUE
  | XR_ENVIRONMENT_BLEND_MODE_ADDITIVE
  | XR_ENVIRONMENT_BLEND_MODE_ALPHA_BLEND

text \<open>A \<open>QOpenXROrigin *\<close> is \<open>None\<close> for \<open>nullptr\<close>, else the node it points to.\<close>

type_synonym XrOriginRef = nat

datatype CompositionLayer =
    PassthroughLayer XrHandle
  | ProjectionLayer XrHandle nat

datatype Effect =
    XrBeginSession XrHandle
  | XrEndSession XrHandle
  | XrCreateReferenceSpace XrReferenceSpaceType XrPosef "XrHandle option"
  | XrDestroySpace XrHandle
  | XrLocateSpace XrHandle XrHandle XrTime "XrPosef option"
  | XrWaitFrame
  | XrBeginFrame
  | XrCreatePassthroughLayer XrHandle
  | XrLocateViews XrHandle XrTime
  | XrAcquireSwapchainImage XrHandle
  | XrWaitSwapchainImage XrHandle
  | DoRender XrHandle
  | XrReleaseSwapchainImage XrHandle
  | XrEndFrame XrTime XrEnvironmentBlendMode "CompositionLayer list"
  | AnimationSetStep int
  | AnimationAdvance
  | EmitReferenceSpaceChanged
  | EmitXrOriginChanged
  | CameraSetPosition XrOriginRef XrVector3f
  | CameraSetRotation XrOriginRef XrQuaternionf
  | InputUpdatePoses XrTime XrHandle
  | SpaceUpdateAnchors XrTime XrHandle
  | InputUpdateHandtracking XrTime XrHandle bool
  | StartCaptureFrame
  | EndCaptureFrame
  | UpdateCameraMultiview nat nat
  | UpdateCameraNonMultiview nat

record Swapchain =
  handle :: XrHandle
  arraySize :: nat

record QOpenXRManager =
  m_session :: XrHandle
  m_sessionState :: XrSessionState
  m_sessionRunning :: bool
  m_availableReferenceSpace :: "XrReferenceSpaceType list"
  m_requestedReferenceSpace :: XrReferenceSpaceType
  m_referenceSpace :: XrReferenceSpaceType
  m_isEmulatingLocalFloor :: bool
  m_isFloorResetPending :: bool
  m_appSpace :: XrHandle
  m_viewSpace :: XrHandle
  m_enablePassthrough :: bool
  m_passthroughSupported :: bool
  m_passthroughLayer :: XrHandle
  m_environmentBlendMode :: XrEnvironmentBlendMode
  m_previousTime :: XrTime
  m_multiviewRendering :: bool
  m_views_size :: nat
  m_configViews_size :: nat
  m_projectionLayerViews_size :: nat
  m_swapchains :: "Swapchain list"
  m_xrOrigin :: "XrOriginRef option"
  m_spaceExtension :: bool
  m_handtrackingExtensionSupported :: bool
  m_handtrackingAimExtensionSupported :: bool
  m_frameCapture :: bool
  effects :: "Effect list"

definition perform :: "Effect \<Rightarrow> QOpenXRManager \<Rightarrow> QOpenXRManager" where
  "perform e s = s\<lparr>effects := effects s @ [e]\<rparr>"

subsection \<open>Session events: pollEvents\<close>

text \<open>The events that \<open>readNextEvent\<close> hands to the loop, by the cases of its switch.\<close>

datatype XrEvent =
    EventDataEventsLost nat
  | EventDataInstanceLossPending XrTime
  | EventDataSessionStateChanged XrHandle XrSessionState XrTime
  | EventDataInteractionProfileChanged
  | EventDataSpaceFB
  | EventDataReferenceSpaceChangePending
  | EventDataOther nat

record PollState =
  manager :: QOpenXRManager
  exitRenderLoop :: bool
  requestRestart :: bool

text \<open>The lambda \<open>handleSessionStateChangedEvent\<close>.\<close>

definition handleSessionStateChangedEvent ::
    "XrHandle \<Rightarrow> XrSessionState \<Rightarrow> PollState \<Rightarrow> XrError + PollState" where
  "handleSessionStateChangedEvent session state ps =
     (let s = (manager ps)\<lparr>m_sessionState := state\<rparr> in
      if session \<noteq> XR_NULL_HANDLE \<and> session \<noteq> m_session s
      then Inr (ps\<lparr>manager := s\<rparr>)
      else
        (case m_sessionState s of
           XR_SESSION_STATE_READY \<Rightarrow>
             if m_session s = XR_NULL_HANDLE then Inl AssertionFailed
             else Inr (ps\<lparr>manager :=
                    (perform (XrBeginSession (m_session s)) s)\<lparr>m_sessionRunning := True\<rparr>\<rparr>)
         | XR_SESSION_STATE_STOPPING \<Rightarrow>
             if m_session s = XR_NULL_HANDLE then Inl AssertionFailed
             else Inr (ps\<lparr>manager :=
                    perform (XrEndSession (m_session s)) (s\<lparr>m_sessionRunning := False\<rparr>)\<rparr>)
         | XR_SESSION_STATE_EXITING \<Rightarrow>
             Inr (ps\<lparr>manager := s, exitRenderLoop := True, requestRestart := False\<rparr>)
         | XR_SESSION_STATE_LOSS_PENDING \<Rightarrow>
             Inr (ps\<lparr>manager := s, exitRenderLoop := True, requestRestart := True\<rparr>)
         | _ \<Rightarrow> Inr (ps\<lparr>manager := s\<rparr>)))"

text \<open>
  The loop over the pending events (the list is what \<open>xrPollEvent\<close> delivers until it
  stops returning \<open>XR_SUCCESS\<close>). An instance-loss event returns at once. The space
  extension handles its own events outside the manager's members.
\<close>

fun pollLoop :: "PollState \<Rightarrow> XrEvent list \<Rightarrow> XrError + PollState" where
  "pollLoop ps [] = Inr ps"
| "pollLoop ps (EventDataInstanceLossPending lossTime # q) =
     Inr (ps\<lparr>exitRenderLoop := True, requestRestart := True\<rparr>)"
| "pollLoop ps (EventDataSessionStateChanged session state time # q) =
     (case handleSessionStateChangedEvent session state ps of
        Inl e \<Rightarrow> Inl e
      | Inr ps' \<Rightarrow> pollLoop ps' q)"
| "pollLoop ps (ev # q) = pollLoop ps q"

definition pollEvents :: "QOpenXRManager \<Rightarrow> XrEvent list \<Rightarrow> XrError + PollState" where
  "pollEvents s q = pollLoop \<lparr>manager = s, exitRenderLoop = False, requestRestart = False\<rparr> q"

text \<open>The session actions: the calls that begin or end the session.\<close>

fun isSessionAction :: "Effect \<Rightarrow> bool" where
  "isSessionAction (XrBeginSession h) = True"
| "isSessionAction (XrEndSession h) = True"
| "isSessionAction e = False"

subsection \<open>The app space: setupAppSpace, resetEmulatedFloorHeight, updateAppSpace\<close>

definition isReferenceSpaceAvailable :: "QOpenXRManager \<Rightarrow> XrReferenceSpaceType \<Rightarrow> bool" where
  "isReferenceSpaceAvailable s type = (type \<in> set (m_availableReferenceSpace s))"

text \<open>
  The runtime's answers during one call of \<open>updateAppSpace\<close>: the handle of each space
  it creates (\<open>None\<close>: the creation fails), and the pose it writes when it locates the
  stage space in the local space (\<open>None\<close>: locating fails).
\<close>

record AppSpaceAnswers =
  createAppSpace :: "XrHandle option"
  createLocalSpace :: "XrHandle option"
  createStageSpace :: "XrHandle option"
  locateStageInLocal :: "XrPosef option"
  createFloorSpace :: "XrHandle option"

definition setupAppSpace ::
    "XrHandle option \<Rightarrow> QOpenXRManager \<Rightarrow> XrError + (bool \<times> QOpenXRManager)" where
  "setupAppSpace created s =
     (if m_session s = XR_NULL_HANDLE then Inl AssertionFailed
      else
        let s1 = s\<lparr>m_isEmulatingLocalFloor := False\<rparr>;
            (newReferenceSpace, s2) =
              (if isReferenceSpaceAvailable s1 (m_requestedReferenceSpace s1)
               then (m_requestedReferenceSpace s1, s1)
               else if m_requestedReferenceSpace s1 = XR_REFERENCE_SPACE_TYPE_LOCAL_FLOOR_EXT
                       \<and> isReferenceSpaceAvailable s1 XR_REFERENCE_SPACE_TYPE_STAGE
               then (XR_REFERENCE_SPACE_TYPE_LOCAL,
                     s1\<lparr>m_isEmulatingLocalFloor := True, m_isFloorResetPending := True\<rparr>)
               else (XR_REFERENCE_SPACE_TYPE_LOCAL, s1));
            s3 = perform (XrCreateReferenceSpace newReferenceSpace identityPose created) s2
        in case created of
             None \<Rightarrow> Inr (False, s3)
           | Some newAppSpace \<Rightarrow>
               let s4 = (if m_appSpace s3 \<noteq> XR_NULL_HANDLE
                         then perform (XrDestroySpace (m_appSpace s3)) s3 else s3);
                   s5 = s4\<lparr>m_appSpace := newAppSpace, m_referenceSpace := newReferenceSpace\<rparr>;
                   s6 = (if \<not> m_isFloorResetPending s5
                         then perform EmitReferenceSpaceChanged s5 else s5)
               in Inr (True, s6))"

text \<open>The pose that \<open>resetEmulatedFloorHeight\<close> passes when it recreates the app space:
  the identity pose with the \<open>y\<close> of the located stage pose.\<close>

definition floorPose :: "XrPosef \<Rightarrow> XrPosef" where
  "floorPose stageLocationPose =
     identityPose\<lparr>position :=
       (position identityPose)\<lparr>vec_y := vec_y (position stageLocationPose)\<rparr>\<rparr>"

definition resetEmulatedFloorHeight ::
    "XrTime \<Rightarrow> AppSpaceAnswers \<Rightarrow> QOpenXRManager \<Rightarrow> XrError + (bool \<times> QOpenXRManager)" where
  "resetEmulatedFloorHeight predictedDisplayTime rt s =
     (if \<not> m_isEmulatingLocalFloor s then Inl AssertionFailed
      else
        let s1 = s\<lparr>m_isFloorResetPending := False\<rparr>;
            s2 = perform (XrCreateReferenceSpace XR_REFERENCE_SPACE_TYPE_LOCAL identityPose
                           (createLocalSpace rt)) s1
        in case createLocalSpace rt of
             None \<Rightarrow> Inr (False, s2)
           | Some localSpace \<Rightarrow>
               let s3 = perform (XrCreateReferenceSpace XR_REFERENCE_SPACE_TYPE_STAGE identityPose
                                  (createStageSpace rt)) s2
               in case createStageSpace rt of
                    None \<Rightarrow> Inr (False, perform (XrDestroySpace localSpace) s3)
                  | Some stageSpace \<Rightarrow>
                      let s4 = perform (XrLocateSpace stageSpace localSpace predictedDisplayTime
                                         (locateStageInLocal rt)) s3
                      in case locateStageInLocal rt of
                           None \<Rightarrow>
                             Inr (False, perform (XrDestroySpace stageSpace)
                                           (perform (XrDestroySpace localSpace) s4))
                         | Some stageLocationPose \<Rightarrow>
                             let s5 = perform (XrDestroySpace stageSpace)
                                        (perform (XrDestroySpace localSpace) s4);
                                 pose = floorPose stageLocationPose;
                                 s6 = perform (XrCreateReferenceSpace XR_REFERENCE_SPACE_TYPE_LOCAL
                                                pose (createFloorSpace rt)) s5
                             in case createFloorSpace rt of
                                  None \<Rightarrow> Inr (False, s6)
                                | Some newAppSpace \<Rightarrow>
                                    Inr (True,
                                      perform EmitReferenceSpaceChanged
                                        ((perform (XrDestroySpace (m_appSpace s6)) s6)
                                           \<lparr>m_appSpace := newAppSpace,
                                            m_referenceSpace :=
                                              XR_REFERENCE_SPACE_TYPE_LOCAL_FLOOR_EXT\<rparr>)))"

text \<open>The second block of \<open>updateAppSpace\<close>: the pending floor reset.\<close>

definition updateAppSpaceFloorReset ::
    "XrTime \<Rightarrow> AppSpaceAnswers \<Rightarrow> QOpenXRManager \<Rightarrow> XrError + QOpenXRManager" where
  "updateAppSpaceFloorReset predictedDisplayTime rt s =
     (if m_isFloorResetPending s then
        (case resetEmulatedFloorHeight predictedDisplayTime rt s of
           Inl e \<Rightarrow> Inl e
         | Inr (ok, s1) \<Rightarrow>
             if \<not> ok
             then Inr (perform EmitReferenceSpaceChanged
                        (s1\<lparr>m_requestedReferenceSpace := XR_REFERENCE_SPACE_TYPE_LOCAL\<rparr>))
             else Inr s1)
      else Inr s)"

definition updateAppSpace ::
    "XrTime \<Rightarrow> AppSpaceAnswers \<Rightarrow> QOpenXRManager \<Rightarrow> XrError + QOpenXRManager" where
  "updateAppSpace predictedDisplayTime rt s =
     (if m_requestedReferenceSpace s \<noteq> m_referenceSpace s \<and> \<not> m_isFloorResetPending s then
        (case setupAppSpace (createAppSpace rt) s of
           Inl e \<Rightarrow> Inl e
         | Inr (ok, s1) \<Rightarrow>
             if \<not> ok
             then Inr (s1\<lparr>m_requestedReferenceSpace := m_referenceSpace s1\<rparr>)
             else updateAppSpaceFloorReset predictedDisplayTime rt s1)
      else updateAppSpaceFloorReset predictedDisplayTime rt s)"

text \<open>A run of frames, each with its display time and the runtime's answers.\<close>

fun updateAppSpaceFrames ::
    "(XrTime \<times> AppSpaceAnswers) list \<Rightarrow> QOpenXRManager \<Rightarrow> XrError + QOpenXRManager" where
  "updateAppSpaceFrames [] s = Inr s"
| "updateAppSpaceFrames ((t, rt) # frames) s =
     (case updateAppSpace t rt s of
        Inl e \<Rightarrow> Inl e
      | Inr s1 \<Rightarrow> updateAppSpaceFrames frames s1)"

subsection \<open>The frame: renderFrame and renderLayer\<close>

record XrFrameState =
  shouldRender :: bool
  predictedDisplayTime :: XrTime
  predictedDisplayPeriod :: XrDuration

text \<open>
  The runtime's answers during one frame: those of the app-space update, whether
  \<open>xrLocateViews\<close> returned \<open>XR_SUCCESS\<close> itself (\<open>XR_UNQUALIFIED_SUCCESS\<close>) and the
  view count it wrote, the handle left in \<open>m_passthroughLayer\<close> by
  \<open>createMetaQuestPassthroughLayer\<close>, the origin node that \<open>checkOrigin\<close> finds in the
  imported scene (\<open>None\<close>: there is none), and the pose the runtime writes when the view
  space is located in the app space (\<open>None\<close>: locating fails).
\<close>

record FrameAnswers =
  appSpaceAnswers :: AppSpaceAnswers
  locateViewsUnqualifiedSuccess :: bool
  viewCountOutput :: nat
  passthroughLayerCreated :: XrHandle
  sceneOrigin :: "XrOriginRef option"
  locateViewSpace :: "XrPosef option"

text \<open>
  The animation driver block of \<open>renderLayer\<close>. The divisions are C++ divisions of
  \<open>qint64\<close>, which truncate towards zero (\<open>sdiv\<close>).
\<close>

definition advanceAnimationDriver ::
    "XrTime \<Rightarrow> XrDuration \<Rightarrow> QOpenXRManager \<Rightarrow> QOpenXRManager" where
  "advanceAnimationDriver predictedDisplayTime' predictedDisplayPeriod' s =
     (let displayPeriodMS = predictedDisplayPeriod' sdiv 1000000;
          displayDeltaMS = (predictedDisplayTime' - m_previousTime s) sdiv 1000000;
          s1 = (if m_previousTime s = 0
                then perform (AnimationSetStep displayPeriodMS) s
                else
                  perform AnimationAdvance
                    (if displayDeltaMS > displayPeriodMS
                     then perform (AnimationSetStep displayPeriodMS) s
                     else perform (AnimationSetStep displayDeltaMS) s))
      in s1\<lparr>m_previousTime := predictedDisplayTime'\<rparr>)"

text \<open>
  \<open>checkOrigin\<close>: without an origin the scene is searched, and an origin found there is
  kept and announced. (The connection made to the origin's \<open>destroyed\<close> signal runs
  between frames.)
\<close>

definition checkOrigin :: "XrOriginRef option \<Rightarrow> QOpenXRManager \<Rightarrow> QOpenXRManager" where
  "checkOrigin found s =
     (if m_xrOrigin s = None then
        (case found of
           None \<Rightarrow> s
         | Some origin \<Rightarrow> perform EmitXrOriginChanged (s\<lparr>m_xrOrigin := Some origin\<rparr>))
      else s)"

text \<open>
  The camera update of \<open>renderLayer\<close>: the view space is located in the app space, and
  when that succeeds the position and the rotation go to \<open>m_xrOrigin->camera()\<close>, with
  no test of \<open>m_xrOrigin\<close>. The position is scaled from metres to centimetres on the way;
  the effect records the located one.
\<close>

definition updateHeadPose ::
    "XrTime \<Rightarrow> XrPosef option \<Rightarrow> QOpenXRManager \<Rightarrow> XrError + QOpenXRManager" where
  "updateHeadPose predictedDisplayTime' located s =
     (let s1 = perform (XrLocateSpace (m_viewSpace s) (m_appSpace s) predictedDisplayTime'
                         located) s
      in case located of
           None \<Rightarrow> Inr s1
         | Some pose \<Rightarrow>
             (case m_xrOrigin s1 of
                None \<Rightarrow> Inl NullDereference
              | Some origin \<Rightarrow>
                  Inr (perform (CameraSetRotation origin (orientation pose))
                        (perform (CameraSetPosition origin (position pose)) s1))))"

text \<open>The hand poses, the spatial anchors and the hand tracking.\<close>

definition updateTracking :: "XrTime \<Rightarrow> QOpenXRManager \<Rightarrow> QOpenXRManager" where
  "updateTracking predictedDisplayTime' s =
     (let s1 = perform (InputUpdatePoses predictedDisplayTime' (m_appSpace s)) s;
          s2 = (if m_spaceExtension s1
                then perform (SpaceUpdateAnchors predictedDisplayTime' (m_appSpace s1)) s1
                else s1)
      in if m_handtrackingExtensionSupported s2
         then perform (InputUpdateHandtracking predictedDisplayTime' (m_appSpace s2)
                         (m_handtrackingAimExtensionSupported s2)) s2
         else s2)"

text \<open>One swapchain image: acquire, wait, update the cameras, render, release. The
  image that is rendered to is looked up in \<open>m_swapchainImages\<close> by the index the runtime
  returns; the lookup is not modelled.\<close>

definition renderToSwapchain :: "XrHandle \<Rightarrow> Effect \<Rightarrow> QOpenXRManager \<Rightarrow> QOpenXRManager" where
  "renderToSwapchain h updateCamera s =
     perform (XrReleaseSwapchainImage h)
       (perform (DoRender h)
          (perform updateCamera
             (perform (XrWaitSwapchainImage h)
                (perform (XrAcquireSwapchainImage h) s))))"

text \<open>The views: once for the array swapchain with multiview, else once per view.\<close>

definition renderViews :: "nat \<Rightarrow> QOpenXRManager \<Rightarrow> QOpenXRManager" where
  "renderViews viewCount s =
     (if m_multiviewRendering s
      then renderToSwapchain (handle (m_swapchains s ! 0)) (UpdateCameraMultiview 0 viewCount) s
      else fold (\<lambda>i. renderToSwapchain (handle (m_swapchains s ! i)) (UpdateCameraNonMultiview i))
             [0..<viewCount] s)"

text \<open>The frame capture around the views, when there is one.\<close>

definition captureFrame :: "Effect \<Rightarrow> QOpenXRManager \<Rightarrow> QOpenXRManager" where
  "captureFrame e s = (if m_frameCapture s then perform e s else s)"

text \<open>The four assertions of \<open>renderLayer\<close> on the view count (and the reads of
  \<open>m_swapchains\<close> they guard).\<close>

definition viewCountAsserts :: "nat \<Rightarrow> QOpenXRManager \<Rightarrow> bool" where
  "viewCountAsserts viewCount s =
     (viewCount = m_views_size s
      \<and> viewCount = m_configViews_size s
      \<and> viewCount = m_projectionLayerViews_size s
      \<and> (if m_multiviewRendering s
          then m_swapchains s \<noteq> [] \<and> viewCount = arraySize (m_swapchains s ! 0)
          else viewCount = length (m_swapchains s)))"

text \<open>
  \<open>renderLayer\<close>: its boolean result and, when it is true, the projection layer it
  filled in. The viewport, the input manager and the animation driver are set before
  the first frame, and their pointers are not modelled; the origin is, because
  \<open>checkOrigin\<close> can leave it null.
\<close>

definition renderLayer ::
    "XrTime \<Rightarrow> XrDuration \<Rightarrow> FrameAnswers \<Rightarrow> QOpenXRManager
       \<Rightarrow> XrError + (CompositionLayer option \<times> QOpenXRManager)" where
  "renderLayer predictedDisplayTime' predictedDisplayPeriod' rt s =
     (case updateAppSpace predictedDisplayTime' (appSpaceAnswers rt) s of
        Inl e \<Rightarrow> Inl e
      | Inr s1 \<Rightarrow>
          let s2 = perform (XrLocateViews (m_appSpace s1) predictedDisplayTime') s1 in
          if locateViewsUnqualifiedSuccess rt then
            if \<not> viewCountAsserts (viewCountOutput rt) s2 then Inl AssertionFailed
            else
              (case updateHeadPose predictedDisplayTime' (locateViewSpace rt)
                      (checkOrigin (sceneOrigin rt) s2) of
                 Inl e \<Rightarrow> Inl e
               | Inr s3 \<Rightarrow>
                   let s4 = updateTracking predictedDisplayTime' s3;
                       s5 = advanceAnimationDriver predictedDisplayTime' predictedDisplayPeriod' s4;
                       s6 = captureFrame StartCaptureFrame s5;
                       s7 = renderViews (viewCountOutput rt) s6;
                       s8 = captureFrame EndCaptureFrame s7
                   in Inr (Some (ProjectionLayer (m_appSpace s8) (m_projectionLayerViews_size s8)),
                           s8))
          else Inr (None, s2))"

definition createMetaQuestPassthroughLayer :: "XrHandle \<Rightarrow> QOpenXRManager \<Rightarrow> QOpenXRManager" where
  "createMetaQuestPassthroughLayer created s =
     (perform (XrCreatePassthroughLayer created) s)\<lparr>m_passthroughLayer := created\<rparr>"

definition renderFrame ::
    "XrFrameState \<Rightarrow> FrameAnswers \<Rightarrow> QOpenXRManager \<Rightarrow> XrError + QOpenXRManager" where
  "renderFrame frameState rt s =
     (if m_session s = XR_NULL_HANDLE then Inl AssertionFailed
      else
        let s1 = perform XrBeginFrame (perform XrWaitFrame s);
            (layers1, s2) =
              (if m_enablePassthrough s1 \<and> m_passthroughSupported s1 then
                 let s' = (if m_passthroughLayer s1 = XR_NULL_HANDLE
                           then createMetaQuestPassthroughLayer (passthroughLayerCreated rt) s1
                           else s1)
                 in ([PassthroughLayer (m_passthroughLayer s')], s')
               else ([], s1));
            rendered =
              (if shouldRender frameState then
                 (case renderLayer (predictedDisplayTime frameState)
                         (predictedDisplayPeriod frameState) rt s2 of
                    Inl e \<Rightarrow> Inl e
                  | Inr (None, s3) \<Rightarrow> Inr (layers1, s3)
                  | Inr (Some layer, s3) \<Rightarrow> Inr (layers1 @ [layer], s3))
               else Inr (layers1, s2))
        in case rendered of
             Inl e \<Rightarrow> Inl e
           | Inr (layers, s4) \<Rightarrow>
               Inr (perform (XrEndFrame (predictedDisplayTime frameState)
                      (if \<not> m_enablePassthrough s4 then m_environmentBlendMode s4
                       else XR_ENVIRONMENT_BLEND_MODE_OPAQUE)
                      layers) s4))"

fun isProjectionLayer :: "CompositionLayer \<Rightarrow> bool" where
  "isProjectionLayer (ProjectionLayer space viewCount) = True"
| "isProjectionLayer (PassthroughLayer h) = False"


text \<open>A manager with a session, used for the concrete evaluations below.\<close>

definition sampleManager :: QOpenXRManager where
  "sampleManager =
     \<lparr>m_session = 5,
      m_sessionState = XR_SESSION_STATE_IDLE,
      m_sessionRunning = False,
      m_availableReferenceSpace =
        [XR_REFERENCE_SPACE_TYPE_VIEW, XR_REFERENCE_SPACE_TYPE_LOCAL, XR_REFERENCE_SPACE_TYPE_STAGE],
      m_requestedReferenceSpace = XR_REFERENCE_SPACE_TYPE_LOCAL_FLOOR_EXT,
      m_referenceSpace = XR_REFERENCE_SPACE_TYPE_LOCAL,
      m_isEmulatingLocalFloor = True,
      m_isFloorResetPending = True,
      m_appSpace = 11,
      m_viewSpace = 12,
      m_enablePassthrough = False,
      m_passthroughSupported = False,
      m_passthroughLayer = XR_NULL_HANDLE,
      m_environmentBlendMode = XR_ENVIRONMENT_BLEND_MODE_OPAQUE,
      m_previousTime = 0,
      m_multiviewRendering = False,
      m_views_size = 2,
      m_configViews_size = 2,
      m_projectionLayerViews_size = 2,
      m_swapchains = [\<lparr>handle = 21, arraySize = 1\<rparr>, \<lparr>handle = 22, arraySize = 1\<rparr>],
      m_xrOrigin = Some 41,
      m_spaceExtension = False,
      m_handtrackingExtensionSupported = False,
      m_handtrackingAimExtensionSupported = False,
      m_frameCapture = False,
      effects = []\<rparr>"

subsection \<open>Facts about the mask\<close>

lemma startValue_mask:
  "push_bit w (1 :: quint32) - 1 = mask w"
  by (simp add: mask_eq_exp_minus_1 push_bit_eq_mult)

lemma getMaskTemplate_mask:
  "getMaskTemplate w off = push_bit (off mod 32) (mask w)"
  unfolding getMaskTemplate_def Let_def startValue_mask ..

lemma set_get_word:
  fixes t v :: quint32
  assumes "b + w \<le> 32"
  shows "drop_bit b ((((t AND NOT (push_bit b (mask w))) OR push_bit b (v AND mask w)))
           AND push_bit b (mask w)) = take_bit w v"
proof (rule bit_eqI)
  fix n
  assume "possible_bit TYPE(quint32) n"
  then have n: "n < 32" by (simp add: possible_bit_def)
  show "bit (drop_bit b ((((t AND NOT (push_bit b (mask w))) OR push_bit b (v AND mask w)))
           AND push_bit b (mask w))) n = bit (take_bit w v) n"
    using assms n by (auto simp add: bit_simps)
qed


subsection \<open>setValue then getValue\<close>

lemma unat_take_bit_mod:
  "unat (take_bit w (v :: quint32)) = unat v mod 2 ^ w"
  by (metis take_bit_eq_mod unsigned_take_bit_eq)

lemma setValue_getValue:
  assumes "off mod 32 + w \<le> 32" and "getIdx off < length ds"
  shows "setValue w off ds v = Some (ds[getIdx off :=
             ((ds ! getIdx off) AND NOT (push_bit (off mod 32) (mask w)))
               OR push_bit (off mod 32) (v AND mask w)])"
    and "getValue w off (ds[getIdx off :=
             ((ds ! getIdx off) AND NOT (push_bit (off mod 32) (mask w)))
               OR push_bit (off mod 32) (v AND mask w)]) = Some (take_bit w v)"
proof -
  show "setValue w off ds v = Some (ds[getIdx off :=
             ((ds ! getIdx off) AND NOT (push_bit (off mod 32) (mask w)))
               OR push_bit (off mod 32) (v AND mask w)])"
    unfolding setValue_def Let_def getMaskTemplate_mask startValue_mask
    using assms(2) by (simp only: simp_thms if_False if_True)
  show "getValue w off (ds[getIdx off :=
             ((ds ! getIdx off) AND NOT (push_bit (off mod 32) (mask w)))
               OR push_bit (off mod 32) (v AND mask w)]) = Some (take_bit w v)"
    unfolding getValue_def Let_def getMaskTemplate_mask
    using assms(2) set_get_word [OF assms(1)] 
    by (simp only: length_list_update nth_list_update_eq simp_thms if_False if_True)
qed

text \<open>
  C2. For an unsigned property of declared width 1, 2, 4, 5, 6, 8 or 16 whose bit range
  lies within one 32-bit word of the data store, \<open>setValue\<close> succeeds for every input
  value \<open>v\<close>, and \<open>getValue\<close> on the resulting store returns \<open>v mod 2 ^ w\<close>.
\<close>

theorem setValue_truncates_mod:
  assumes "w \<in> {1, 2, 4, 5, 6, 8, 16}"
    and "off mod 32 + w \<le> 32"
    and "getIdx off < length ds"
  shows "\<exists>ds' r. setValue w off ds v = Some ds' \<and> getValue w off ds' = Some r
           \<and> unat r = unat v mod 2 ^ w"
  using setValue_getValue [OF assms(2) assms(3), of v] unat_take_bit_mod [of w v]
  by blast

text \<open>Width 2 at offset 6, value 5: the stored value is 1.\<close>

theorem setValue_truncates_mod_witness:
  "(2 :: nat) \<in> {1, 2, 4, 5, 6, 8, 16} \<and> (6 :: nat) mod 32 + 2 \<le> 32
   \<and> getIdx 6 < length [0 :: quint32]
   \<and> (\<exists>ds' r. setValue 2 6 [0] 5 = Some ds' \<and> getValue 2 6 ds' = Some r
          \<and> unat r = unat (5 :: quint32) mod 2 ^ 2)
   \<and> setValue 2 6 [0] 5 = Some [64] \<and> getValue 2 6 [64] = Some 1"
proof -
  have a: "(2 :: nat) \<in> {1, 2, 4, 5, 6, 8, 16}" by simp
  have b: "(6 :: nat) mod 32 + 2 \<le> 32" by simp
  have c: "getIdx 6 < length [0 :: quint32]" by (simp add: getIdx_def)
  have d: "setValue 2 6 [0] 5 = Some [64]"
    by (simp add: setValue_def getMaskTemplate_def getIdx_def)
  have e: "getValue 2 6 [64] = Some 1"
    by (simp add: getValue_def getMaskTemplate_def getIdx_def)
  from setValue_truncates_mod [OF a b c, of 5] a b c d e show ?thesis by blast
qed

subsection \<open>Equality and hash of keys\<close>

declare hashLoop.simps [simp del]
declare eqLoop.simps [simp del]

lemma eqLoop_iff:
  "eqLoop a b idx retval \<longleftrightarrow>
     retval \<and> (\<forall>i. idx \<le> i \<and> i < DataBufferSize \<longrightarrow> a ! i = b ! i)"
proof (induction a b idx retval rule: eqLoop.induct)
  case (1 a b idx retval)
  show ?case
  proof (cases "idx < DataBufferSize \<and> retval")
    case True
    have "(\<forall>i. idx \<le> i \<and> i < DataBufferSize \<longrightarrow> a ! i = b ! i) \<longleftrightarrow>
          (a ! idx = b ! idx \<and> (\<forall>i. idx + 1 \<le> i \<and> i < DataBufferSize \<longrightarrow> a ! i = b ! i))"
      (is "?L \<longleftrightarrow> ?R")
    proof
      assume ?L
      with True show ?R by auto
    next
      assume r: ?R
      show ?L
      proof (intro allI impI)
        fix i assume i: "idx \<le> i \<and> i < DataBufferSize"
        show "a ! i = b ! i"
        proof (cases "i = idx")
          case True
          with r show ?thesis by simp
        next
          case False
          with i have "idx + 1 \<le> i" by simp
          with r i show ?thesis by blast
        qed
      qed
    qed
    with True "1.IH" show ?thesis
      by (subst eqLoop.simps) simp
  next
    case False
    then show ?thesis
      by (subst eqLoop.simps) auto
  qed
qed
lemma hashLoop_xorAll:
  "length buf = DataBufferSize \<Longrightarrow>
     hashLoop qHash buf idx retval = retval XOR xorAll (map qHash (drop idx buf))"
proof (induction qHash buf idx retval rule: hashLoop.induct)
  case (1 qHash buf idx retval)
  show ?case
  proof (cases "idx < DataBufferSize")
    case True
    then have d: "drop idx buf = buf ! idx # drop (idx + 1) buf"
      using "1.prems" by (simp add: Cons_nth_drop_Suc)
    from True "1.IH" "1.prems" show ?thesis
      by (subst hashLoop.simps) (simp add: d xorAll_def xor.assoc)
  next
    case False
    then show ?thesis
      using "1.prems" by (subst hashLoop.simps) (simp add: xorAll_def)
  qed
qed

lemma list_eq_nth_DataBufferSize:
  assumes "length a = DataBufferSize" and "length b = DataBufferSize"
  shows "(\<forall>i. i < DataBufferSize \<longrightarrow> a ! i = b ! i) \<longleftrightarrow> a = b"
  using assms by (auto simp add: list_eq_iff_nth_eq)

lemma flip_bit_differs:
  fixes x :: quint32
  assumes "n < 32"
  shows "x XOR push_bit n 1 \<noteq> x"
proof
  assume "x XOR push_bit n 1 = x"
  then have "bit (x XOR push_bit n 1) n = bit x n" by simp
  with assms show False by (simp add: bit_simps)
qed


text \<open>
  C8. For two keys of ten data words each: if the words are pairwise equal and the
  feature-set hashes are equal, \<open>operator==\<close> is true and the hashes agree; \<open>hash()\<close>
  is the XOR of \<open>qHash\<close> of every word, XORed with the feature-set hash; and a key whose
  word array differs from another's in a single bit does not compare equal to it.
\<close>

theorem key_equality_and_hash:
  assumes "length (m_dataBuffer k1) = DataBufferSize"
    and "length (m_dataBuffer k2) = DataBufferSize"
  shows "((\<forall>i<DataBufferSize. m_dataBuffer k1 ! i = m_dataBuffer k2 ! i)
            \<and> m_featureSetHash k1 = m_featureSetHash k2
          \<longrightarrow> keyEq k1 k2 \<and> hash qHash k1 = hash qHash k2)
       \<and> hash qHash k1 = xorAll (map qHash (m_dataBuffer k1)) XOR m_featureSetHash k1
       \<and> (i < DataBufferSize \<and> n < 32
            \<and> m_dataBuffer k2 = (m_dataBuffer k1)[i := (m_dataBuffer k1 ! i) XOR push_bit n 1]
          \<longrightarrow> \<not> keyEq k1 k2)"
proof (intro conjI impI)
  assume h: "(\<forall>i<DataBufferSize. m_dataBuffer k1 ! i = m_dataBuffer k2 ! i)
           \<and> m_featureSetHash k1 = m_featureSetHash k2"
  then have e: "m_dataBuffer k1 = m_dataBuffer k2"
    using list_eq_nth_DataBufferSize [OF assms] by blast
  with h show "keyEq k1 k2" by (simp add: keyEq_def eqLoop_iff)
  from e h show "hash qHash k1 = hash qHash k2" by (simp add: hash_def)
next
  show "hash qHash k1 = xorAll (map qHash (m_dataBuffer k1)) XOR m_featureSetHash k1"
    by (simp add: hash_def hashLoop_xorAll [OF assms(1)])
next
  assume h: "i < DataBufferSize \<and> n < 32
         \<and> m_dataBuffer k2 = (m_dataBuffer k1)[i := (m_dataBuffer k1 ! i) XOR push_bit n 1]"
  then have "m_dataBuffer k2 ! i = (m_dataBuffer k1 ! i) XOR push_bit n 1"
    using assms(1) by simp
  then have "m_dataBuffer k1 ! i \<noteq> m_dataBuffer k2 ! i"
    using h flip_bit_differs [of n "m_dataBuffer k1 ! i"] by simp
  with h show "\<not> keyEq k1 k2"
    by (auto simp add: keyEq_def eqLoop_iff)
qed


text \<open>
  Two zeroed keys with feature hash 7 are equal, with hash 7 under \<open>qHash = ucast\<close>;
  flipping bit 5 of word 3 makes them unequal.
\<close>

theorem key_equality_and_hash_witness:
  "length (m_dataBuffer (newKey 7)) = DataBufferSize
   \<and> keyEq (newKey 7) (newKey 7)
   \<and> hash ucast (newKey 7) = 7
   \<and> (3 :: nat) < DataBufferSize \<and> (5 :: nat) < 32
   \<and> \<not> keyEq (newKey 7)
         ((newKey 7)\<lparr>m_dataBuffer := (m_dataBuffer (newKey 7))[3 := (m_dataBuffer (newKey 7) ! 3) XOR push_bit 5 1]\<rparr>)"
proof -
  define k where "k = newKey 7"
  define k2 where "k2 = k\<lparr>m_dataBuffer := (m_dataBuffer k)[3 := (m_dataBuffer k ! 3) XOR push_bit 5 1]\<rparr>"
  have l1: "length (m_dataBuffer k) = DataBufferSize" by (simp add: k_def newKey_def)
  have l2: "length (m_dataBuffer k2) = DataBufferSize" by (simp add: k2_def l1)
  have x: "xorAll (map ucast (m_dataBuffer k)) = 0"
    by (simp add: k_def newKey_def xorAll_def DataBufferSize_def numeral_eq_Suc)
  have f: "m_featureSetHash k = 7" by (simp add: k_def newKey_def)
  have b3: "(3 :: nat) < DataBufferSize" by (simp add: DataBufferSize_def)
  have b5: "(5 :: nat) < 32" by simp
  have h3: "m_dataBuffer k2 = (m_dataBuffer k)[3 := (m_dataBuffer k ! 3) XOR push_bit 5 1]"
    by (simp add: k2_def)
  have same: "\<forall>i<DataBufferSize. m_dataBuffer k ! i = m_dataBuffer k ! i" by simp
  note t1 = key_equality_and_hash [OF l1 l1, of ucast 3 5]
  note t2 = key_equality_and_hash [OF l1 l2, of ucast 3 5]
  from t1 same have e: "keyEq k k" by blast
  from t1 have "hash ucast k = xorAll (map ucast (m_dataBuffer k)) XOR m_featureSetHash k"
    by blast
  then have h: "hash ucast k = 7" by (simp only: x f) simp
  from t2 b3 b5 h3 have n: "\<not> keyEq k k2" by blast
  from l1 e h b3 b5 n show ?thesis
    unfolding k2_def k_def by blast
qed
subsection \<open>The offset pass\<close>

lemma offsetVisit_nextStart:
  "offsetVisit m p = (p\<lparr>offset := nextStart m (BitWidth (ptype p))\<rparr>,
                      nextStart m (BitWidth (ptype p)) + BitWidth (ptype p))"
  by (simp add: offsetVisit_def nextStart_def Let_def)

lemma visitOffsets_Cons:
  "visitOffsets m (p # ps) =
     (p\<lparr>offset := nextStart m (BitWidth (ptype p))\<rparr>
        # fst (visitOffsets (nextStart m (BitWidth (ptype p)) + BitWidth (ptype p)) ps),
      snd (visitOffsets (nextStart m (BitWidth (ptype p)) + BitWidth (ptype p)) ps))"
  by (simp add: offsetVisit_nextStart split: prod.split)

lemma visitOffsets_snd: "snd (visitOffsets m ps) = finalOffset m (propWidths ps)"
  by (induction ps arbitrary: m)
     (simp_all add: visitOffsets_Cons propWidths_def del: visitOffsets.simps(2))

lemma visitOffsets_offsets:
  "map offset (fst (visitOffsets m ps)) = offsetsFrom m (propWidths ps)"
  by (induction ps arbitrary: m)
     (simp_all add: visitOffsets_Cons propWidths_def del: visitOffsets.simps(2))

lemma replicate_numeral_Cons:
  "replicate (numeral k) x = x # replicate (pred_numeral k) x"
  by (simp add: numeral_eq_Suc)

lemma propWidths_visitProperties:
  "propWidths visitProperties =
     [1, 1, 4] @ replicate 63 1 @ [2] @ concat (replicate 15 [6, 5]) @ replicate 5 2
     @ [16] @ replicate 6 1 @ [2, 8, 1]"
  by (simp add: propWidths_def visitProperties_def lightFlagNames_def lightSpotFlagNames_def lightAreaFlagNames_def lightShadowFlagNames_def
        imageMapNames_def textureChannelNames_def mkProp_def replicate_numeral_Cons)

lemma init_offset_value: "snd (visitOffsets 0 visitProperties) = 305"
  by (simp add: visitOffsets_snd propWidths_visitProperties nextStart_def
        replicate_numeral_Cons)

lemma visitProperties_offsets:
  "map offset (fst (visitOffsets 0 visitProperties)) =
     [0, 1, 2] @ [6..<31] @ [32..<63] @ [64..<72]
     @ [73, 79, 84, 90, 96, 102, 107, 113, 118, 128, 133, 139, 144, 150, 160, 166, 171,
        177, 182, 192, 197, 203, 208, 214, 224, 230, 235, 241, 246, 256,
        261, 263, 265, 267, 269, 271]
     @ [288..<295] @ [296, 304]"
  by (simp add: visitOffsets_offsets propWidths_visitProperties nextStart_def
        replicate_numeral_Cons)

lemma nextStart_ge: "m \<le> nextStart m w"
  by (simp add: nextStart_def) presburger

lemma nextStart_within_word:
  assumes "w \<le> 31"
  shows "nextStart m w mod 32 + w \<le> 31"
proof (cases "m mod 32 + w > 31")
  case True
  have "(m + (32 - m mod 32)) mod 32 = 0"
    by presburger
  with True assms show ?thesis by (simp add: nextStart_def)
next
  case False
  then show ?thesis by (simp add: nextStart_def)
qed

lemma offsetsFrom_lower:
  "x \<in> set (offsetsFrom m ws) \<Longrightarrow> m \<le> x"
proof (induction ws arbitrary: m)
  case Nil
  then show ?case by simp
next
  case (Cons w ws)
  from Cons.prems have "x = nextStart m w \<or> x \<in> set (offsetsFrom (nextStart m w + w) ws)"
    by simp
  then show ?case
  proof
    assume "x = nextStart m w"
    then show ?thesis by (simp add: nextStart_ge)
  next
    assume "x \<in> set (offsetsFrom (nextStart m w + w) ws)"
    then have "nextStart m w + w \<le> x" by (rule Cons.IH)
    with nextStart_ge [of m w] show ?thesis by linarith
  qed
qed

lemma length_offsetsFrom: "length (offsetsFrom m ws) = length ws"
  by (induction ws arbitrary: m) simp_all

lemma offsetsFrom_disjoint:
  "i < j \<Longrightarrow> j < length ws \<Longrightarrow>
     offsetsFrom m ws ! i + ws ! i \<le> offsetsFrom m ws ! j"
proof (induction ws arbitrary: m i j)
  case Nil
  then show ?case by simp
next
  case (Cons w ws)
  obtain j' where j: "j = Suc j'" using Cons.prems(1) by (cases j) auto
  show ?case
  proof (cases i)
    case 0
    have "offsetsFrom (nextStart m w + w) ws ! j' \<in> set (offsetsFrom (nextStart m w + w) ws)"
      using Cons.prems(2) j by (simp add: length_offsetsFrom)
    then have "nextStart m w + w \<le> offsetsFrom (nextStart m w + w) ws ! j'"
      by (rule offsetsFrom_lower)
    with 0 j show ?thesis by simp
  next
    case (Suc i')
    with Cons.prems j have "i' < j'" "j' < length ws" by simp_all
    from Cons.IH [OF this] Suc j show ?thesis by simp
  qed
qed

lemma offsetsFrom_within_word:
  "i < length ws \<Longrightarrow> ws ! i \<le> 31 \<Longrightarrow> offsetsFrom m ws ! i mod 32 + ws ! i \<le> 31"
proof (induction ws arbitrary: m i)
  case Nil
  then show ?case by simp
next
  case (Cons w ws)
  then show ?case
    by (cases i) (simp_all add: nextStart_within_word)
qed


lemma propWidths_take: "propWidths (take n ps) = take n (propWidths ps)"
  by (simp add: propWidths_def take_map)

lemma visitProperties_28:
  "visitProperties ! 28 = mkProp KeyBoolean ''light10HasSpot''"
  by (simp add: visitProperties_def lightFlagNames_def lightSpotFlagNames_def
        lightAreaFlagNames_def lightShadowFlagNames_def nth_append)

text \<open>
  C3. The offset pass on the declared property list, at the property where the claim and
  the code part: \<open>light10HasSpot\<close> (width 1) is visited at running offset 31, where it
  fits into bit 31 without crossing a word boundary, and the visitor moves it to offset 32.
  The pass as a whole stays below the 320 bits, so \<open>init\<close> succeeds.
\<close>

theorem offset_pass_moves_exact_fit:
  "name (visitProperties ! 28) = ''light10HasSpot''
   \<and> BitWidth (ptype (visitProperties ! 28)) = 1
   \<and> snd (visitOffsets 0 (take 28 visitProperties)) = 31
   \<and> \<not> crossesWordBoundary 31 1
   \<and> map offset (fst (visitOffsets 0 visitProperties)) ! 28 = 32
   \<and> init visitProperties \<noteq> None"
proof -
  have a: "name (visitProperties ! 28) = ''light10HasSpot''"
    by (simp add: visitProperties_28 mkProp_def)
  have b: "BitWidth (ptype (visitProperties ! 28)) = 1"
    by (simp add: visitProperties_28 mkProp_def)
  have c: "snd (visitOffsets 0 (take 28 visitProperties)) = 31"
    by (simp add: visitOffsets_snd propWidths_take propWidths_visitProperties nextStart_def
          replicate_numeral_Cons)
  have d: "\<not> crossesWordBoundary 31 1"
    by (simp add: crossesWordBoundary_def)
  have e: "map offset (fst (visitOffsets 0 visitProperties)) ! 28 = 32"
    by (simp add: visitProperties_offsets)
  have f: "init visitProperties \<noteq> None"
  proof (cases "visitOffsets 0 visitProperties")
    case (Pair props' m)
    with init_offset_value have "m = 305" by simp
    with Pair show ?thesis by (simp add: init_def)
  qed
  from a b c d e f show ?thesis by blast
qed
section \<open>The round trip through the string\<close>

subsection \<open>A reader leaves the bits of other properties alone\<close>

lemma setValue_eq:
  assumes "getIdx off < length ds"
  shows "setValue w off ds v = Some (ds[getIdx off :=
             ((ds ! getIdx off) AND NOT (push_bit (off mod 32) (mask w)))
               OR push_bit (off mod 32) (v AND mask w)])"
  unfolding setValue_def Let_def getMaskTemplate_mask startValue_mask
  using assms by (simp only: simp_thms if_False if_True)

lemma setValue_Some:
  assumes "setValue w off ds v = Some ds'"
  shows "getIdx off < length ds"
    and "ds' = ds[getIdx off := ((ds ! getIdx off) AND NOT (push_bit (off mod 32) (mask w)))
                                OR push_bit (off mod 32) (v AND mask w)]"
proof -
  show i: "getIdx off < length ds"
  proof (rule ccontr)
    assume "\<not> getIdx off < length ds"
    then have "setValue w off ds v = None" by (simp add: setValue_def Let_def)
    with assms show False by simp
  qed
  from setValue_eq [OF i, of w v] assms
  show "ds' = ds[getIdx off := ((ds ! getIdx off) AND NOT (push_bit (off mod 32) (mask w)))
                                OR push_bit (off mod 32) (v AND mask w)]"
    by simp
qed

lemma word_outside_range:
  fixes t v :: quint32
  assumes "n < b \<or> b + w \<le> n"
  shows "bit ((t AND NOT (push_bit b (mask w))) OR push_bit b (v AND mask w)) n = bit t n"
proof (cases "n < 32")
  case True
  with assms show ?thesis by (auto simp add: bit_simps)
next
  case False
  then have "\<not> bit t n"
    and "\<not> bit ((t AND NOT (push_bit b (mask w))) OR push_bit b (v AND mask w)) n"
    by (auto dest: bit_imp_le_length)
  then show ?thesis by simp
qed

lemma setValue_bitAt:
  assumes "setValue w off ds v = Some ds'"
    and "off mod 32 + w \<le> 32"
    and "B < off \<or> off + w \<le> B"
  shows "bitAt ds' B = bitAt ds B"
proof (cases "B div 32 = off div 32")
  case False
  with setValue_Some [OF assms(1)] show ?thesis
    by (simp add: bitAt_def getIdx_def)
next
  case True
  have "B mod 32 < off mod 32 \<or> off mod 32 + w \<le> B mod 32"
  proof -
    have B: "B = 32 * (B div 32) + B mod 32" by simp
    have O: "off = 32 * (off div 32) + off mod 32" by simp
    from True B O assms(3) show ?thesis by linarith
  qed
  from word_outside_range [OF this] setValue_Some [OF assms(1)] True show ?thesis
    by (simp add: bitAt_def getIdx_def)
qed

lemma word_outside_bit:
  fixes t :: quint32
  assumes "n \<noteq> b"
  shows "bit (t OR push_bit b (mask 1)) n = bit t n"
    and "bit (t AND NOT (push_bit b (mask 1))) n = bit t n"
proof -
  show "bit (t OR push_bit b (mask 1)) n = bit t n"
  proof (cases "n < 32")
    case True
    with assms show ?thesis by (auto simp add: bit_simps)
  next
    case False
    then have "\<not> bit t n" and "\<not> bit (t OR push_bit b (mask 1)) n"
      by (auto dest: bit_imp_le_length)
    then show ?thesis by simp
  qed
  show "bit (t AND NOT (push_bit b (mask 1))) n = bit t n"
  proof (cases "n < 32")
    case True
    with assms show ?thesis by (auto simp add: bit_simps)
  next
    case False
    then have "\<not> bit t n" and "\<not> bit (t AND NOT (push_bit b (mask 1))) n"
      by (auto dest: bit_imp_le_length)
    then show ?thesis by simp
  qed
qed

lemma boolSetValue_bitAt:
  assumes "boolSetValue off ds b = Some ds'" and "B \<noteq> off"
  shows "bitAt ds' B = bitAt ds B"
proof -
  from assms(1) have i: "getIdx off < length ds"
    by (simp add: boolSetValue_def Let_def split: if_splits)
  from assms(1) i have d: "ds' = ds[getIdx off :=
        (if b then (ds ! getIdx off) OR push_bit (off mod 32) (mask 1)
         else (ds ! getIdx off) AND NOT (push_bit (off mod 32) (mask 1)))]"
    unfolding boolSetValue_def Let_def getMaskTemplate_mask
    by (simp only: simp_thms if_False if_True split: if_splits) auto
  show ?thesis
  proof (cases "B div 32 = off div 32")
    case False
    with d show ?thesis by (simp add: bitAt_def getIdx_def)
  next
    case True
    have "B mod 32 \<noteq> off mod 32"
    proof
      assume "B mod 32 = off mod 32"
      with True have "B = off" by (metis div_mult_mod_eq)
      with assms(2) show False by simp
    qed
    from word_outside_bit [OF this] d i True show ?thesis
      by (simp add: bitAt_def getIdx_def)
  qed
qed

lemma setBitValue_bitAt:
  assumes "setBitValue w off bitMask b ds = Some ds'"
    and "off mod 32 + w \<le> 32" and "B < off \<or> off + w \<le> B"
  shows "bitAt ds' B = bitAt ds B"
proof -
  from assms(1) obtain x where
    "setValue w off ds (if b then x OR bitMask else x AND NOT bitMask) = Some ds'"
    by (auto simp add: setBitValue_def split: option.splits)
  from setValue_bitAt [OF this assms(2) assms(3)] show ?thesis .
qed

lemma setFlags_bitAt:
  assumes "setFlags w off flags ds = Some ds'"
    and "off mod 32 + w \<le> 32" and "B < off \<or> off + w \<le> B"
  shows "bitAt ds' B = bitAt ds B"
  using assms
proof (induction flags arbitrary: ds)
  case Nil
  then show ?case by simp
next
  case (Cons f flags)
  obtain piece flagName bitMask where f: "f = (piece, flagName, bitMask)" by (cases f)
  from Cons.prems(1) f obtain b ks where
      s: "setBitValue w off bitMask b ds = Some ks" and r: "setFlags w off flags ks = Some ds'"
    by (auto split: option.splits)
  from Cons.IH [OF r Cons.prems(2) Cons.prems(3)] setBitValue_bitAt [OF s Cons.prems(2) Cons.prems(3)]
  show ?case by simp
qed

text \<open>Each reader returns the store unchanged or writes at the property's own offset.\<close>

lemma unsignedFromString_cases:
  assumes "unsignedFromString w p str ds = Some ds'"
  shows "ds' = ds \<or> (\<exists>v. setValue w (offset p) ds v = Some ds')"
  using assms
  by (auto simp add: unsignedFromString_def Let_def split: option.splits if_splits)

lemma textureChannelFromString_cases:
  assumes "textureChannelFromString p str ds = Some ds'"
  shows "ds' = ds \<or> (\<exists>v. setValue 2 (offset p) ds v = Some ds')"
  using assms
  by (auto simp add: textureChannelFromString_def split: option.splits if_splits)

lemma enumFromString_cases:
  assumes "enumFromString values p str ds = Some ds'"
  shows "ds' = ds \<or> (\<exists>v. setValue 2 (offset p) ds v = Some ds')"
  using assms
  by (auto simp add: enumFromString_def Let_def split: option.splits if_splits)

lemma flagListFromString_cases:
  assumes "flagListFromString w flags p str ds = Some ds'"
  shows "ds' = ds \<or> (\<exists>fs. setFlags w (offset p) fs ds = Some ds')"
  using assms
  by (auto simp add: flagListFromString_def Let_def split: option.splits if_splits)

lemma propFromString_bitAt:
  assumes "propFromString enums p str ds = Some ds'" and "awayFrom B p"
  shows "bitAt ds' B = bitAt ds B"
proof (cases "ptype p")
  case KeyBoolean
  with assms(1) obtain b where "boolSetValue (offset p) ds b = Some ds'"
    by (auto simp add: propFromString_def booleanFromString_def split: option.splits)
  moreover from assms(2) KeyBoolean have "B \<noteq> offset p" by (auto simp add: awayFrom_def)
  ultimately show ?thesis by (rule boolSetValue_bitAt)
next
  case (KeyUnsigned w)
  with assms(1) have "unsignedFromString w p str ds = Some ds'"
    by (simp add: propFromString_def)
  from unsignedFromString_cases [OF this] assms(2) KeyUnsigned show ?thesis
    by (auto simp add: awayFrom_def dest: setValue_bitAt)
next
  case KeyTextureChannel
  with assms(1) have "textureChannelFromString p str ds = Some ds'"
    by (simp add: propFromString_def)
  from textureChannelFromString_cases [OF this] assms(2) KeyTextureChannel show ?thesis
    by (auto simp add: awayFrom_def dest: setValue_bitAt)
next
  case KeyTextureSwizzle
  with assms(1) have "flagListFromString 5 textureSwizzleFlags p str ds = Some ds'"
    by (simp add: propFromString_def)
  from flagListFromString_cases [OF this] assms(2) KeyTextureSwizzle show ?thesis
    by (auto simp add: awayFrom_def dest: setFlags_bitAt)
next
  case KeyImageMap
  with assms(1) have "unsignedFromString 6 p str ds = Some ds'"
    by (simp add: propFromString_def)
  from unsignedFromString_cases [OF this] assms(2) KeyImageMap show ?thesis
    by (auto simp add: awayFrom_def dest: setValue_bitAt)
next
  case KeySpecularModel
  with assms(1) have "enumFromString (specularModelValues enums) p str ds = Some ds'"
    by (simp add: propFromString_def)
  from enumFromString_cases [OF this] assms(2) KeySpecularModel show ?thesis
    by (auto simp add: awayFrom_def dest: setValue_bitAt)
next
  case KeyAlphaMode
  with assms(1) have "enumFromString (alphaModeValues enums) p str ds = Some ds'"
    by (simp add: propFromString_def)
  from enumFromString_cases [OF this] assms(2) KeyAlphaMode show ?thesis
    by (auto simp add: awayFrom_def dest: setValue_bitAt)
next
  case KeyVertexAttribute
  with assms(1) have "flagListFromString 8 vertexAttributeFlags p str ds = Some ds'"
    by (simp add: propFromString_def)
  from flagListFromString_cases [OF this] assms(2) KeyVertexAttribute show ?thesis
    by (auto simp add: awayFrom_def dest: setFlags_bitAt)
qed

lemma fromString_bitAt:
  assumes "fromString enums ps str ds = Some ds'" and "\<forall>p \<in> set ps. awayFrom B p"
  shows "bitAt ds' B = bitAt ds B"
  using assms
proof (induction ps arbitrary: ds)
  case Nil
  then show ?case by simp
next
  case (Cons p ps)
  from Cons.prems(1) obtain ks where
      s: "propFromString enums p str ds = Some ks" and r: "fromString enums ps str ks = Some ds'"
    by (auto split: option.splits)
  from Cons.prems(2) have a: "awayFrom B p" and b: "\<forall>p \<in> set ps. awayFrom B p" by simp_all
  from Cons.IH [OF r b] propFromString_bitAt [OF s a] show ?case by simp
qed

lemma fromString_append:
  "fromString enums (ps @ qs) str ds =
     (case fromString enums ps str ds of None \<Rightarrow> None | Some ks \<Rightarrow> fromString enums qs str ks)"
  by (induction ps arbitrary: ds) (simp_all split: option.splits)

subsection \<open>Searching in a string with a known beginning\<close>

lemma startsWith_append:
  "startsWith a needle \<Longrightarrow> startsWith (a @ b) needle"
  by (induction a needle rule: startsWith.induct) simp_all

lemma startsWith_append_not:
  "\<not> startsWith a needle \<Longrightarrow> length needle \<le> length a \<Longrightarrow> \<not> startsWith (a @ b) needle"
  by (induction a needle rule: startsWith.induct) simp_all

lemma indexOf_Some_bound:
  "indexOf a needle = Some i \<Longrightarrow> startsWith (drop i a) needle"
proof (induction a arbitrary: i)
  case Nil
  then show ?case by (simp split: if_splits)
next
  case (Cons c cs)
  show ?case
  proof (cases "startsWith (c # cs) needle")
    case True
    with Cons.prems show ?thesis by simp
  next
    case False
    with Cons.prems obtain j where j: "indexOf cs needle = Some j" "i = Suc j" by auto
    from Cons.IH [OF j(1)] j(2) show ?thesis by simp
  qed
qed

lemma indexOf_empty_needle: "indexOf s [] = Some 0"
  by (cases s) simp_all

lemma indexOf_append_prefix:
  "indexOf a needle = Some i \<Longrightarrow> i + length needle \<le> length a \<Longrightarrow>
     indexOf (a @ b) needle = Some i"
proof (induction a arbitrary: i)
  case Nil
  then show ?case by (simp add: indexOf_empty_needle split: if_splits)
next
  case (Cons c cs)
  show ?case
  proof (cases "startsWith (c # cs) needle")
    case True
    with Cons.prems(1) have "i = 0" by simp
    moreover from True have "startsWith ((c # cs) @ b) needle" by (rule startsWith_append)
    ultimately show ?thesis by simp
  next
    case False
    with Cons.prems(1) obtain j where j: "indexOf cs needle = Some j" "i = Suc j" by auto
    from j(2) Cons.prems(2) have l: "j + length needle \<le> length cs" by simp
    then have "length needle \<le> length (c # cs)" by simp
    from startsWith_append_not [OF False this]
    have n: "\<not> startsWith ((c # cs) @ b) needle" .
    from Cons.IH [OF j(1) l] have "indexOf (cs @ b) needle = Some j" .
    with n j(2) show ?thesis by simp
  qed
qed

lemma byteAt_nth: "i < length a \<Longrightarrow> byteAt a i = Some (a ! i)"
  by (induction a i rule: byteAt.induct) simp_all

lemma byteAt_append: "i < length a \<Longrightarrow> byteAt (a @ b) i = Some (a ! i)"
  by (simp add: byteAt_nth nth_append)

text \<open>
  The reader of \<open>QSSGShaderKeyUnsigned\<close> on a string in which the first occurrence of
  the name is followed by \<open>={\<close>, as \<open>QSSGShaderKeyImageMap::toString\<close> writes it: there
  are no digits after the \<open>=\<close>, and the value 0 is stored.
\<close>

lemma unsignedFromString_brace:
  assumes "indexOf a (name p) = Some i"
    and "drop (i + length (name p)) a = ''={''"
  shows "unsignedFromString w p (a @ b) ds = setValue w (offset p) ds 0"
proof -
  have la: "length a = i + length (name p) + 2"
  proof -
    have "length (drop (i + length (name p)) a) = 2" by (simp add: assms(2))
    then show ?thesis by simp
  qed
  have ix: "indexOf (a @ b) (name p) = Some i"
    using assms(1) la by (intro indexOf_append_prefix) simp_all
  have e: "a ! (i + length (name p)) = CHR ''=''"
  proof -
    have "a ! (i + length (name p)) = drop (i + length (name p)) a ! 0"
      using la by simp
    then show ?thesis by (simp add: assms(2))
  qed
  have b1: "byteAt (a @ b) (i + length (name p)) = Some CHR ''=''"
    using la e by (simp add: byteAt_append)
  have d: "drop (Suc (i + length (name p))) (a @ b) = CHR ''{'' # b"
  proof -
    have "drop (i + length (name p) + 1) a = drop 1 (drop (i + length (name p)) a)"
      by (simp add: add.commute)
    then have "drop (i + length (name p) + 1) a = ''{''" by (simp add: assms(2))
    then show ?thesis using la by simp
  qed
  have g: "digitCount (CHR ''{'' # b) = Some 0" by (simp add: isDigit_def)
  show ?thesis
    by (simp add: unsignedFromString_def ix b1 Let_def d isDigit_def toInt_def del: drop_append)
qed

subsection \<open>The writer and the offset pass, piece by piece\<close>

lemma stringVisit_simple:
  "stringVisit str text' =
     (if text' = [] then str else if str = [] then text' else str @ '';'' @ text')"
  by (cases text') (auto simp add: stringVisit_def Let_def)

lemma toStringLoop_append:
  "toStringLoop enums (ps @ qs) ds str =
     (case toStringLoop enums ps ds str of
        None \<Rightarrow> None
      | Some s \<Rightarrow> toStringLoop enums qs ds s)"
  by (induction ps arbitrary: str) (simp_all split: option.splits)

lemma toStringLoop_prefix:
  "toStringLoop enums ps ds str = Some out \<Longrightarrow> \<exists>rest. out = str @ rest"
proof (induction ps arbitrary: str)
  case Nil
  then show ?case by simp
next
  case (Cons p ps)
  from Cons.prems obtain t where t: "propToString enums p ds = Some t"
      and r: "toStringLoop enums ps ds (stringVisit str t) = Some out"
    by (auto split: option.splits)
  from Cons.IH [OF r] obtain rest where "out = stringVisit str t @ rest" by blast
  then show ?case by (auto simp add: stringVisit_simple split: if_splits)
qed

lemma propToString_total:
  assumes "getIdx (offset p) < length ds"
  shows "\<exists>t. propToString enums p ds = Some t"
  using assms
  by (cases "ptype p") (simp_all add: propToString_def getValue_def boolGetValue_def Let_def)

lemma toStringLoop_total:
  assumes "\<forall>p \<in> set ps. getIdx (offset p) < length ds"
  shows "\<exists>out. toStringLoop enums ps ds str = Some out"
  using assms
proof (induction ps arbitrary: str)
  case Nil
  then show ?case by simp
next
  case (Cons p ps)
  from Cons.prems have "getIdx (offset p) < length ds" by simp
  from propToString_total [OF this] obtain t where t: "propToString enums p ds = Some t" by blast
  from Cons.prems have "\<forall>p \<in> set ps. getIdx (offset p) < length ds" by simp
  from Cons.IH [OF this] t show ?case by simp
qed

lemma toStringLoop_all_empty:
  assumes "\<forall>p \<in> set ps. propToString enums p ds = Some []"
  shows "toStringLoop enums ps ds str = Some str"
  using assms
  by (induction ps) (simp_all add: stringVisit_simple)

text \<open>The offset pass on a list in two parts.\<close>

lemma visitOffsets_append:
  "visitOffsets m (A @ B) =
     (fst (visitOffsets m A) @ fst (visitOffsets (snd (visitOffsets m A)) B),
      snd (visitOffsets (snd (visitOffsets m A)) B))"
  by (induction A arbitrary: m)
     (simp_all add: visitOffsets_Cons del: visitOffsets.simps(2))

lemma finalOffset_ge: "m \<le> finalOffset m ws"
proof (induction ws arbitrary: m)
  case Nil
  then show ?case by simp
next
  case (Cons w ws)
  have "m \<le> nextStart m w + w" using nextStart_ge [of m w] by simp
  also have "\<dots> \<le> finalOffset (nextStart m w + w) ws" by (rule Cons.IH)
  finally show ?case by simp
qed

text \<open>
  What the pass does to each property: only the offset changes; it lies between the
  running offset at the start and the final one, and within one word.
\<close>

lemma visitOffsets_member:
  assumes "p \<in> set (fst (visitOffsets m ps))"
  shows "\<exists>q \<in> set ps. p = q\<lparr>offset := offset p\<rparr>
           \<and> m \<le> offset p
           \<and> offset p + BitWidth (ptype q) \<le> snd (visitOffsets m ps)
           \<and> (BitWidth (ptype q) \<le> 31 \<longrightarrow> offset p mod 32 + BitWidth (ptype q) \<le> 31)"
  using assms
proof (induction ps arbitrary: m)
  case Nil
  then show ?case by simp
next
  case (Cons a ps)
  let ?w = "BitWidth (ptype a)"
  let ?m' = "nextStart m ?w + ?w"
  from Cons.prems have "p = a\<lparr>offset := nextStart m ?w\<rparr> \<or> p \<in> set (fst (visitOffsets ?m' ps))"
    by (simp add: visitOffsets_Cons del: visitOffsets.simps(2))
  then show ?case
  proof
    assume p: "p = a\<lparr>offset := nextStart m ?w\<rparr>"
    have "?m' \<le> snd (visitOffsets ?m' ps)"
      by (simp add: visitOffsets_snd finalOffset_ge)
    with p nextStart_ge [of m ?w] nextStart_within_word [of ?w m] show ?thesis
      by (auto simp add: visitOffsets_Cons simp del: visitOffsets.simps(2))
  next
    assume "p \<in> set (fst (visitOffsets ?m' ps))"
    from Cons.IH [OF this] obtain q where q: "q \<in> set ps" "p = q\<lparr>offset := offset p\<rparr>"
        "?m' \<le> offset p" "offset p + BitWidth (ptype q) \<le> snd (visitOffsets ?m' ps)"
        "BitWidth (ptype q) \<le> 31 \<longrightarrow> offset p mod 32 + BitWidth (ptype q) \<le> 31"
      by blast
    from q(3) nextStart_ge [of m ?w] have "m \<le> offset p" by linarith
    with q show ?thesis
      by (auto simp add: visitOffsets_Cons simp del: visitOffsets.simps(2))
  qed
qed

subsection \<open>The failing key\<close>

lemma diffuseMapEnabledKey_explicit:
  "diffuseMapEnabledKey = [0, 0, 512, 0, 0, 0, 0, 0, 0, 0]"
  by (simp add: diffuseMapEnabledKey_def DataBufferSize_def replicate_numeral_Cons)

lemma zeroKey_explicit:
  "replicate DataBufferSize (0 :: quint32) = [0, 0, 0, 0, 0, 0, 0, 0, 0, 0]"
  by (simp add: DataBufferSize_def replicate_numeral_Cons)

lemma diffuseMapEnabledKey_built:
  "setBitValue 6 73 1 True (replicate DataBufferSize 0) = Some diffuseMapEnabledKey"
  by (simp add: setBitValue_def getValue_def setValue_def getMaskTemplate_def getIdx_def
        diffuseMapEnabledKey_explicit zeroKey_explicit)

lemma diffuseMapEnabledKey_values:
  "getValue 4 2 diffuseMapEnabledKey = Some 0"
  "getValue 2 71 diffuseMapEnabledKey = Some 0"
  "getValue 6 73 diffuseMapEnabledKey = Some 1"
  by (simp_all add: getValue_def getMaskTemplate_def getIdx_def diffuseMapEnabledKey_explicit)

lemma bit9_only:
  fixes b :: nat
  assumes "b \<noteq> 9"
  shows "(512 :: quint32) AND push_bit b (mask 1) = 0"
proof -
  have e: "(512 :: quint32) = push_bit 9 1" by simp
  have "push_bit 9 (1 :: quint32) AND push_bit b 1 = 0"
  proof (rule bit_eqI)
    fix n
    show "bit (push_bit 9 (1 :: quint32) AND push_bit b 1) n = bit (0 :: quint32) n"
      using assms
      by (simp only: bit_and_iff bit_push_bit_iff bit_1_iff bit_0_eq) auto
  qed
  then show ?thesis
    by (simp only: e mask_1)
qed

lemma diffuseMapEnabledKey_flag_clear:
  assumes "off < 73"
  shows "boolGetValue off diffuseMapEnabledKey = Some False"
proof -
  have i: "off div 32 < 3" using assms by simp
  then have l: "getIdx off < length diffuseMapEnabledKey"
    by (simp add: getIdx_def diffuseMapEnabledKey_explicit)
  have "(diffuseMapEnabledKey ! (off div 32)) AND push_bit (off mod 32) (mask 1) = 0"
  proof (cases "off div 32 = 2")
    case True
    have "off = 32 * (off div 32) + off mod 32" by simp
    with True assms have "off mod 32 \<noteq> 9" by linarith
    from bit9_only [OF this] True show ?thesis
      by (simp add: diffuseMapEnabledKey_explicit)
  next
    case False
    with i have "off div 32 = 0 \<or> off div 32 = 1" by linarith
    then show ?thesis
      by (auto simp add: diffuseMapEnabledKey_explicit)
  qed
  with l show ?thesis
    by (simp add: boolGetValue_def Let_def getMaskTemplate_mask getIdx_def)
qed

lemma flag_text_empty:
  assumes "ptype p = KeyBoolean" and "offset p < 73"
  shows "propToString enums p diffuseMapEnabledKey = Some []"
  using assms diffuseMapEnabledKey_flag_clear [OF assms(2)]
  by (simp add: propToString_def internalToString_def)

subsection \<open>Where the properties lie\<close>

lemma visitProperties_head:
  "take 68 visitProperties =
     map (mkProp KeyBoolean) [''hasLighting'', ''hasIbl'']
     @ [mkProp (KeyUnsigned 4) ''lightCount'']
     @ map (mkProp KeyBoolean) leadingFlagNames
     @ [mkProp KeySpecularModel ''specularModel'', mkProp KeyImageMap ''diffuseMap'']"
  by (simp add: visitProperties_def leadingFlagNames_def lightFlagNames_def
        lightSpotFlagNames_def lightAreaFlagNames_def lightShadowFlagNames_def
        imageMapNames_def)

lemma length_leadingFlagNames: "length leadingFlagNames = 63"
  by (simp add: leadingFlagNames_def lightFlagNames_def
        lightSpotFlagNames_def lightAreaFlagNames_def lightShadowFlagNames_def)

lemma propWidths_flags: "propWidths (map (mkProp KeyBoolean) ns) = replicate (length ns) 1"
  by (induction ns) (simp_all add: propWidths_def mkProp_def)

lemma visitProperties_width:
  assumes "q \<in> set visitProperties"
  shows "BitWidth (ptype q) \<le> 31"
proof -
  from assms have "BitWidth (ptype q) \<in> set (propWidths visitProperties)"
    by (simp add: propWidths_def)
  then show ?thesis
    by (auto simp add: propWidths_visitProperties set_replicate_conv_if)
qed

lemma flags_member:
  assumes "p \<in> set (fst (visitOffsets m (map (mkProp KeyBoolean) ns)))"
  shows "ptype p = KeyBoolean \<and> offset p < finalOffset m (replicate (length ns) 1)"
proof -
  from visitOffsets_member [OF assms] obtain q where
      q: "q \<in> set (map (mkProp KeyBoolean) ns)" "p = q\<lparr>offset := offset p\<rparr>"
         "offset p + BitWidth (ptype q) \<le> snd (visitOffsets m (map (mkProp KeyBoolean) ns))"
    by blast
  from q(1) have t: "ptype q = KeyBoolean" by (auto simp add: mkProp_def)
  from q(2) have "ptype p = ptype q" by (cases q) (cases p, simp)
  with t q(3) show ?thesis
    by (simp add: visitOffsets_snd propWidths_flags)
qed


lemma visitOffsets_single:
  "visitOffsets m [p] =
     ([p\<lparr>offset := nextStart m (BitWidth (ptype p))\<rparr>],
      nextStart m (BitWidth (ptype p)) + BitWidth (ptype p))"
  by (simp add: visitOffsets_Cons del: visitOffsets.simps(2))

text \<open>
  The properties with their offsets: two flags, \<open>lightCount\<close> at 2, sixty-three
  flags, \<open>specularModel\<close> at 71, \<open>diffuseMap\<close> at 73, and the rest from 79 on.
\<close>

lemma keyProperties_split:
  "\<exists>HB1 HB2 TP.
     keyProperties =
       HB1 @ [(mkProp (KeyUnsigned 4) ''lightCount'')\<lparr>offset := 2\<rparr>] @ HB2
       @ [(mkProp KeySpecularModel ''specularModel'')\<lparr>offset := 71\<rparr>,
          (mkProp KeyImageMap ''diffuseMap'')\<lparr>offset := 73\<rparr>]
       @ TP
     \<and> length HB1 = 2 \<and> length HB2 = 63
     \<and> (\<forall>p \<in> set HB1 \<union> set HB2. ptype p = KeyBoolean \<and> offset p < 73)
     \<and> (\<forall>p \<in> set TP. awayFrom 73 p \<and> offset p < 320)"
proof -
  define P1 where "P1 = map (mkProp KeyBoolean) [''hasLighting'', ''hasIbl'']"
  define F where "F = map (mkProp KeyBoolean) leadingFlagNames"
  define lc where "lc = mkProp (KeyUnsigned 4) ''lightCount''"
  define sm where "sm = mkProp KeySpecularModel ''specularModel''"
  define dm where "dm = mkProp KeyImageMap ''diffuseMap''"
  define TP0 where "TP0 = drop 68 visitProperties"
  define HB1 where "HB1 = fst (visitOffsets 0 P1)"
  define HB2 where "HB2 = fst (visitOffsets 6 F)"
  define TP where "TP = fst (visitOffsets 79 TP0)"
  have vp: "visitProperties = P1 @ [lc] @ F @ [sm] @ [dm] @ TP0"
  proof -
    have "visitProperties = take 68 visitProperties @ drop 68 visitProperties" by simp
    then show ?thesis
      by (simp add: visitProperties_head P1_def F_def lc_def sm_def dm_def TP0_def)
  qed
  have w: "BitWidth (ptype lc) = 4" "BitWidth (ptype sm) = 2" "BitWidth (ptype dm) = 6"
    by (simp_all add: lc_def sm_def dm_def mkProp_def)
  have s1: "snd (visitOffsets 0 P1) = 2"
    unfolding visitOffsets_snd P1_def propWidths_flags
    by (simp add: nextStart_def)
  have s2: "snd (visitOffsets 6 F) = 71"
    unfolding visitOffsets_snd F_def propWidths_flags length_leadingFlagNames
    by (simp add: nextStart_def replicate_numeral_Cons)
  have n: "nextStart 2 4 = 2" "nextStart 71 2 = 71" "nextStart 73 6 = 73"
    by (simp_all add: nextStart_def)
  have k: "keyProperties =
             HB1 @ [lc\<lparr>offset := 2\<rparr>] @ HB2 @ [sm\<lparr>offset := 71\<rparr>, dm\<lparr>offset := 73\<rparr>] @ TP"
    by (simp add: keyProperties_def vp visitOffsets_append visitOffsets_Cons s1 s2 w n
          HB1_def HB2_def TP_def del: visitOffsets.simps(2))
  have e: "snd (visitOffsets 79 TP0) = 305"
  proof -
    have "snd (visitOffsets 0 visitProperties) = snd (visitOffsets 79 TP0)"
      by (simp add: vp visitOffsets_append visitOffsets_Cons s1 s2 w n
            del: visitOffsets.simps(2))
    then show ?thesis by (simp add: init_offset_value)
  qed
  have l: "length HB1 = 2" "length HB2 = 63"
  proof -
    have "length (map offset HB1) = 2"
      unfolding HB1_def visitOffsets_offsets
      by (simp add: length_offsetsFrom P1_def propWidths_def)
    then show "length HB1 = 2" by simp
    have "length (map offset HB2) = 63"
      unfolding HB2_def visitOffsets_offsets
      by (simp add: length_offsetsFrom F_def propWidths_def length_leadingFlagNames)
    then show "length HB2 = 63" by simp
  qed
  have h: "\<forall>p \<in> set HB1 \<union> set HB2. ptype p = KeyBoolean \<and> offset p < 73"
  proof
    fix p
    assume "p \<in> set HB1 \<union> set HB2"
    then show "ptype p = KeyBoolean \<and> offset p < 73"
    proof
      assume "p \<in> set HB1"
      from flags_member [OF this [unfolded HB1_def P1_def]] show ?thesis
        by (simp add: nextStart_def)
    next
      assume "p \<in> set HB2"
      from flags_member [OF this [unfolded HB2_def F_def]] show ?thesis
        by (simp add: length_leadingFlagNames nextStart_def replicate_numeral_Cons)
    qed
  qed
  have t: "\<forall>p \<in> set TP. awayFrom 73 p \<and> offset p < 320"
  proof
    fix p
    assume "p \<in> set TP"
    from visitOffsets_member [OF this [unfolded TP_def]] obtain q where
        q: "q \<in> set TP0" "p = q\<lparr>offset := offset p\<rparr>" "79 \<le> offset p"
           "offset p + BitWidth (ptype q) \<le> snd (visitOffsets 79 TP0)"
           "BitWidth (ptype q) \<le> 31 \<longrightarrow> offset p mod 32 + BitWidth (ptype q) \<le> 31"
      by blast
    from q(1) have "q \<in> set visitProperties"
      unfolding TP0_def by (rule in_set_dropD)
    from visitProperties_width [OF this] q(5)
    have a: "offset p mod 32 + BitWidth (ptype q) \<le> 31" by simp
    from q(2) have "ptype p = ptype q" by (cases q) (cases p, simp)
    with a q(3) q(4) e show "awayFrom 73 p \<and> offset p < 320"
      by (simp add: awayFrom_def)
  qed
  from k l h t show ?thesis
    unfolding lc_def sm_def dm_def by blast
qed

subsection \<open>What the failing key serialises to\<close>

text \<open>The text of the specular model whose stored value is 0.\<close>

lemma lightCount_text:
  "propToString enums ((mkProp (KeyUnsigned 4) ''lightCount'')\<lparr>offset := 2\<rparr>)
     diffuseMapEnabledKey = Some ''lightCount=0''"
  using toStr.simps [of 0]
  by (simp add: propToString_def mkProp_def diffuseMapEnabledKey_values)

lemma specularModel_text:
  "\<exists>X \<in> {''KGGX'', ''Default'', []}.
     propToString enums ((mkProp KeySpecularModel ''specularModel'')\<lparr>offset := 71\<rparr>)
       diffuseMapEnabledKey = Some (''specularModel='' @ X @ '';'')"
  by (simp add: propToString_def mkProp_def diffuseMapEnabledKey_values
        specularModelToString_def)

lemma diffuseMap_text:
  "propToString enums ((mkProp KeyImageMap ''diffuseMap'')\<lparr>offset := 73\<rparr>)
     diffuseMapEnabledKey = Some ''diffuseMap={enabled=true;;;;;}''"
  by (simp add: propToString_def mkProp_def diffuseMapEnabledKey_values
        imageMapToString_def internalToString_def getBitValue_def)

lemma diffuseMap_found:
  assumes "X \<in> {''KGGX'', ''Default'', []}"
  shows "\<exists>i. indexOf (''lightCount=0;specularModel='' @ X @ '';;diffuseMap={'') ''diffuseMap''
              = Some i
            \<and> drop (i + length ''diffuseMap'')
                 (''lightCount=0;specularModel='' @ X @ '';;diffuseMap={'') = ''={''"
proof -
  from assms consider "X = ''KGGX''" | "X = ''Default''" | "X = []" by auto
  then show ?thesis
  proof cases
    case 1
    have "indexOf ''lightCount=0;specularModel=KGGX;;diffuseMap={'' ''diffuseMap'' = Some 33"
      by simp
    with 1 show ?thesis by simp
  next
    case 2
    have "indexOf ''lightCount=0;specularModel=Default;;diffuseMap={'' ''diffuseMap'' = Some 36"
      by simp
    with 2 show ?thesis by simp
  next
    case 3
    have "indexOf ''lightCount=0;specularModel=;;diffuseMap={'' ''diffuseMap'' = Some 29"
      by simp
    with 3 show ?thesis by simp
  qed
qed


text \<open>
  The serialised key: \<open>lightCount\<close>, the specular model, \<open>diffuseMap\<close> with its flags
  in braces, and whatever the remaining properties write.
\<close>

lemma toString_shape:
  "\<exists>X \<in> {''KGGX'', ''Default'', []}. \<exists>rest.
     toString enums keyProperties diffuseMapEnabledKey [] =
       Some ((''lightCount=0;specularModel='' @ X @ '';;diffuseMap={'')
             @ (''enabled=true;;;;;}'' @ rest))"
proof -
  let ?k = diffuseMapEnabledKey
  let ?lc = "(mkProp (KeyUnsigned 4) ''lightCount'')\<lparr>offset := 2\<rparr>"
  let ?sm = "(mkProp KeySpecularModel ''specularModel'')\<lparr>offset := 71\<rparr>"
  let ?dm = "(mkProp KeyImageMap ''diffuseMap'')\<lparr>offset := 73\<rparr>"
  from keyProperties_split obtain HB1 HB2 TP where
      k: "keyProperties = HB1 @ [?lc] @ HB2 @ [?sm, ?dm] @ TP"
      and h: "\<forall>p \<in> set HB1 \<union> set HB2. ptype p = KeyBoolean \<and> offset p < 73"
      and t: "\<forall>p \<in> set TP. awayFrom 73 p \<and> offset p < 320"
    by blast
  from specularModel_text [of enums] obtain X where
      X: "X \<in> {''KGGX'', ''Default'', []}"
      and sm: "propToString enums ?sm ?k = Some (''specularModel='' @ X @ '';'')"
    by blast
  let ?s4 = "''lightCount=0;specularModel='' @ X @ '';;diffuseMap={enabled=true;;;;;}''"
  have e1: "toStringLoop enums HB1 ?k [] = Some []"
    using h by (intro toStringLoop_all_empty ballI flag_text_empty) auto
  have e2: "toStringLoop enums [?lc] ?k [] = Some ''lightCount=0''"
    by (simp add: lightCount_text stringVisit_simple)
  have e3: "toStringLoop enums HB2 ?k ''lightCount=0'' = Some ''lightCount=0''"
    using h by (intro toStringLoop_all_empty ballI flag_text_empty) auto
  have e4: "toStringLoop enums [?sm, ?dm] ?k ''lightCount=0'' = Some ?s4"
    by (simp add: sm diffuseMap_text stringVisit_simple)
  have "\<forall>p \<in> set TP. getIdx (offset p) < length ?k"
  proof
    fix p
    assume "p \<in> set TP"
    with t have "offset p < 320" by blast
    then show "getIdx (offset p) < length ?k"
      by (simp add: getIdx_def diffuseMapEnabledKey_explicit)
  qed
  from toStringLoop_total [OF this] obtain out where
      e5: "toStringLoop enums TP ?k ?s4 = Some out"
    by blast
  from toStringLoop_prefix [OF e5] obtain rest where r: "out = ?s4 @ rest" by blast
  have "toString enums keyProperties ?k [] = Some out"
    unfolding toString_def k toStringLoop_append e1 e2 e3 e4 option.case e5 ..
  with r X show ?thesis by auto
qed

subsection \<open>What the reader makes of it\<close>

lemma setValue_length:
  assumes "setValue w off ds v = Some ds'"
  shows "length ds' = length ds"
  using setValue_Some(2) [OF assms] by simp

lemma boolSetValue_length:
  assumes "boolSetValue off ds b = Some ds'"
  shows "length ds' = length ds"
  using assms by (auto simp add: boolSetValue_def Let_def split: if_splits)

lemma setFlags_length:
  assumes "setFlags w off flags ds = Some ds'"
  shows "length ds' = length ds"
  using assms
proof (induction flags arbitrary: ds)
  case Nil
  then show ?case by simp
next
  case (Cons f flags)
  obtain piece flagName bitMask where f: "f = (piece, flagName, bitMask)" by (cases f)
  from Cons.prems f obtain b ks where
      s: "setBitValue w off bitMask b ds = Some ks" and r: "setFlags w off flags ks = Some ds'"
    by (auto split: option.splits)
  from s obtain x where "setValue w off ds x = Some ks"
    by (auto simp add: setBitValue_def split: option.splits)
  from setValue_length [OF this] Cons.IH [OF r] show ?case by simp
qed

lemma propFromString_length:
  assumes "propFromString enums p str ds = Some ds'"
  shows "length ds' = length ds"
proof (cases "ptype p")
  case KeyBoolean
  with assms obtain b where "boolSetValue (offset p) ds b = Some ds'"
    by (auto simp add: propFromString_def booleanFromString_def split: option.splits)
  then show ?thesis by (rule boolSetValue_length)
next
  case (KeyUnsigned w)
  with assms have "unsignedFromString w p str ds = Some ds'"
    by (simp add: propFromString_def)
  from unsignedFromString_cases [OF this] show ?thesis
    by (auto dest: setValue_length)
next
  case KeyTextureChannel
  with assms have "textureChannelFromString p str ds = Some ds'"
    by (simp add: propFromString_def)
  from textureChannelFromString_cases [OF this] show ?thesis
    by (auto dest: setValue_length)
next
  case KeyTextureSwizzle
  with assms have "flagListFromString 5 textureSwizzleFlags p str ds = Some ds'"
    by (simp add: propFromString_def)
  from flagListFromString_cases [OF this] show ?thesis
    by (auto dest: setFlags_length)
next
  case KeyImageMap
  with assms have "unsignedFromString 6 p str ds = Some ds'"
    by (simp add: propFromString_def)
  from unsignedFromString_cases [OF this] show ?thesis
    by (auto dest: setValue_length)
next
  case KeySpecularModel
  with assms have "enumFromString (specularModelValues enums) p str ds = Some ds'"
    by (simp add: propFromString_def)
  from enumFromString_cases [OF this] show ?thesis
    by (auto dest: setValue_length)
next
  case KeyAlphaMode
  with assms have "enumFromString (alphaModeValues enums) p str ds = Some ds'"
    by (simp add: propFromString_def)
  from enumFromString_cases [OF this] show ?thesis
    by (auto dest: setValue_length)
next
  case KeyVertexAttribute
  with assms have "flagListFromString 8 vertexAttributeFlags p str ds = Some ds'"
    by (simp add: propFromString_def)
  from flagListFromString_cases [OF this] show ?thesis
    by (auto dest: setFlags_length)
qed

lemma fromString_length:
  assumes "fromString enums ps str ds = Some ds'"
  shows "length ds' = length ds"
  using assms
proof (induction ps arbitrary: ds)
  case Nil
  then show ?case by simp
next
  case (Cons p ps)
  from Cons.prems obtain ks where
      s: "propFromString enums p str ds = Some ks" and r: "fromString enums ps str ks = Some ds'"
    by (auto split: option.splits)
  from Cons.IH [OF r] propFromString_length [OF s] show ?case by simp
qed

text \<open>Storing 0 in the six bits of \<open>diffuseMap\<close> clears its \<open>Enabled\<close> bit.\<close>

lemma setValue_zero_clears:
  assumes "setValue 6 73 ds 0 = Some ds'"
  shows "\<not> bitAt ds' 73"
proof -
  from setValue_Some [OF assms] show ?thesis
    by (simp add: bitAt_def getIdx_def bit_simps)
qed

text \<open>\<open>isEnabled\<close> of \<open>diffuseMap\<close> reads bit 73 of the store.\<close>

lemma enabled_flag_bitAt:
  assumes "2 < length ds"
  shows "map_option (\<lambda>v. getBitValue v 1) (getValue 6 73 ds) = Some (bitAt ds 73)"
proof -
  have a: "(v AND 1 \<noteq> 0) = bit v 0" for v :: quint32
    by (simp add: and_one_eq bit_0 mod_2_eq_odd)
  have "bit (drop_bit 9 ((ds ! 2) AND push_bit 9 (mask 6))) 0 = bit (ds ! 2) 9"
    by (simp add: bit_simps)
  with assms show ?thesis
    unfolding getValue_def Let_def getMaskTemplate_mask getBitValue_def a
    by (simp add: getIdx_def bitAt_def del: push_bit_of_1)
qed

text \<open>
  The reader on a string that starts as the serialised key does: whatever the
  properties before \<open>diffuseMap\<close> read, \<open>diffuseMap\<close> stores 0, and no later property
  writes its bits.
\<close>

lemma fromString_drops_enabled:
  assumes "X \<in> {''KGGX'', ''Default'', []}"
  shows "case fromString enums keyProperties
                ((''lightCount=0;specularModel='' @ X @ '';;diffuseMap={'') @ B) ds of
           None \<Rightarrow> True
         | Some k' \<Rightarrow> length k' = length ds \<and> \<not> bitAt k' 73"
proof -
  let ?A = "''lightCount=0;specularModel='' @ X @ '';;diffuseMap={''"
  let ?lc = "(mkProp (KeyUnsigned 4) ''lightCount'')\<lparr>offset := 2\<rparr>"
  let ?sm = "(mkProp KeySpecularModel ''specularModel'')\<lparr>offset := 71\<rparr>"
  let ?dm = "(mkProp KeyImageMap ''diffuseMap'')\<lparr>offset := 73\<rparr>"
  from keyProperties_split obtain HB1 HB2 TP where
      k: "keyProperties = HB1 @ [?lc] @ HB2 @ [?sm, ?dm] @ TP"
      and t: "\<forall>p \<in> set TP. awayFrom 73 p \<and> offset p < 320"
    by blast
  define H where "H = HB1 @ [?lc] @ HB2 @ [?sm]"
  have k': "keyProperties = H @ [?dm] @ TP" by (simp add: k H_def)
  from diffuseMap_found [OF assms] obtain i where
      i: "indexOf ?A ''diffuseMap'' = Some i"
         "drop (i + length ''diffuseMap'') ?A = ''={''"
    by blast
  have nm: "name ?dm = ''diffuseMap''" by (simp add: mkProp_def)
  have dm: "propFromString enums ?dm (?A @ B) d = setValue 6 73 d 0" for d
  proof -
    have "unsignedFromString 6 ?dm (?A @ B) d = setValue 6 (offset ?dm) d 0"
      by (rule unsignedFromString_brace [where i = i]) (simp_all only: nm i)
    then show ?thesis by (simp add: propFromString_def mkProp_def)
  qed
  have aw: "\<forall>p \<in> set TP. awayFrom 73 p" using t by blast
  show ?thesis
  proof (cases "fromString enums H (?A @ B) ds")
    case None
    then show ?thesis by (simp only: k' fromString_append option.case)
  next
    case (Some d1)
    note h = Some
    show ?thesis
    proof (cases "setValue 6 73 d1 0")
      case None
      with h dm [of d1] show ?thesis
        by (simp only: k' fromString_append option.case fromString.simps)
    next
      case (Some d2)
      note s = Some
      show ?thesis
      proof (cases "fromString enums TP (?A @ B) d2")
        case None
        with h s dm [of d1] show ?thesis
          by (simp only: k' fromString_append option.case fromString.simps)
      next
        case (Some d3)
        from fromString_bitAt [OF Some aw] setValue_zero_clears [OF s]
        have b: "\<not> bitAt d3 73" by simp
        from fromString_length [OF Some] setValue_length [OF s] fromString_length [OF h]
        have l: "length d3 = length ds" by simp
        from h s Some dm [of d1]
        have "fromString enums keyProperties (?A @ B) ds = Some d3"
          by (simp only: k' fromString_append option.case fromString.simps)
        with b l show ?thesis by simp
      qed
    qed
  qed
qed

lemma keyProperties_diffuseMap:
  "keyProperties ! 67 = (mkProp KeyImageMap ''diffuseMap'')\<lparr>offset := 73\<rparr>"
proof -
  from keyProperties_split obtain HB1 HB2 TP where
      k: "keyProperties =
            HB1 @ [(mkProp (KeyUnsigned 4) ''lightCount'')\<lparr>offset := 2\<rparr>] @ HB2
            @ [(mkProp KeySpecularModel ''specularModel'')\<lparr>offset := 71\<rparr>,
               (mkProp KeyImageMap ''diffuseMap'')\<lparr>offset := 73\<rparr>] @ TP"
      and l: "length HB1 = 2" "length HB2 = 63"
    by blast
  show ?thesis
    unfolding k using l by (simp add: nth_append)
qed

text \<open>
  C1. The key in which only the \<open>Enabled\<close> flag of \<open>diffuseMap\<close> is set (\<open>setBitValue\<close>
  of the image map at offset 73 on the zero key). \<open>toString\<close> writes it, with
  \<open>diffuseMap={enabled=true;;;;;}\<close>. \<open>fromString\<close> of that text into a zero key never
  gives the flag back: \<open>QSSGShaderKeyImageMap\<close> has no \<open>fromString\<close>, the one it inherits
  from \<open>QSSGShaderKeyUnsigned\<close> looks for digits after \<open>diffuseMap=\<close>, finds the brace and
  stores 0. The result is a key whose \<open>diffuseMap\<close> is not enabled, unless a reader reads
  outside the text (\<open>None\<close>).
\<close>

theorem image_map_flag_not_restored:
  "\<exists>S. setBitValue 6 73 1 True (replicate DataBufferSize 0) = Some diffuseMapEnabledKey
      \<and> keyProperties ! 67 = (mkProp KeyImageMap ''diffuseMap'')\<lparr>offset := 73\<rparr>
      \<and> map_option (\<lambda>v. getBitValue v 1) (getValue 6 73 diffuseMapEnabledKey) = Some True
      \<and> toString enums keyProperties diffuseMapEnabledKey [] = Some S
      \<and> (case fromString enums keyProperties S (replicate DataBufferSize 0) of
            None \<Rightarrow> True
          | Some k' \<Rightarrow>
              map_option (\<lambda>v. getBitValue v 1) (getValue 6 73 k') = Some False
            \<and> k' \<noteq> diffuseMapEnabledKey)"
proof -
  from toString_shape [of enums] obtain X rest where
      X: "X \<in> {''KGGX'', ''Default'', []}"
      and S: "toString enums keyProperties diffuseMapEnabledKey [] =
                Some ((''lightCount=0;specularModel='' @ X @ '';;diffuseMap={'')
                      @ (''enabled=true;;;;;}'' @ rest))"
    by blast
  define S' where "S' = (''lightCount=0;specularModel='' @ X @ '';;diffuseMap={'')
                      @ (''enabled=true;;;;;}'' @ rest)"
  have e: "map_option (\<lambda>v. getBitValue v 1) (getValue 6 73 diffuseMapEnabledKey) = Some True"
    by (simp add: diffuseMapEnabledKey_values getBitValue_def)
  have r: "case fromString enums keyProperties S' (replicate DataBufferSize 0) of
            None \<Rightarrow> True
          | Some k' \<Rightarrow>
              map_option (\<lambda>v. getBitValue v 1) (getValue 6 73 k') = Some False
            \<and> k' \<noteq> diffuseMapEnabledKey"
  proof (cases "fromString enums keyProperties S' (replicate DataBufferSize 0)")
    case None
    then show ?thesis by simp
  next
    case (Some k')
    from fromString_drops_enabled [OF X, where enums = enums
        and B = "''enabled=true;;;;;}'' @ rest" and ds = "replicate DataBufferSize 0"] Some
    have l: "length k' = DataBufferSize" and b: "\<not> bitAt k' 73"
      by (simp_all add: S'_def)
    from l have "2 < length k'" by (simp add: DataBufferSize_def)
    from enabled_flag_bitAt [OF this] b
    have g: "map_option (\<lambda>v. getBitValue v 1) (getValue 6 73 k') = Some False" by simp
    from g e have "k' \<noteq> diffuseMapEnabledKey" by auto
    with g Some show ?thesis by simp
  qed
  from diffuseMapEnabledKey_built keyProperties_diffuseMap e S r show ?thesis
    unfolding S'_def by blast
qed

section \<open>Theorems on the XR session manager\<close>

subsection \<open>Session-state events\<close>

text \<open>
  C10. A session-state-changed event whose session handle is neither null nor the
  manager's own records the new state and does nothing else: no session call, the
  running flag, \<open>exitRenderLoop\<close> and \<open>requestRestart\<close> as before. For the event pump
  on such an event alone, both outputs are false.
\<close>

theorem unknown_session_event_ignored:
  assumes "session \<noteq> XR_NULL_HANDLE" and "session \<noteq> m_session (manager ps)"
  shows "handleSessionStateChangedEvent session state ps =
           Inr (ps\<lparr>manager := (manager ps)\<lparr>m_sessionState := state\<rparr>\<rparr>)
         \<and> (session \<noteq> m_session s \<longrightarrow>
              pollEvents s [EventDataSessionStateChanged session state time] =
                Inr \<lparr>manager = s\<lparr>m_sessionState := state\<rparr>,
                     exitRenderLoop = False, requestRestart = False\<rparr>)"
  using assms by (simp add: handleSessionStateChangedEvent_def pollEvents_def)

text \<open>An event of session 7 in state Ready, for the manager of session 5.\<close>

theorem unknown_session_event_ignored_witness:
  "(7 :: nat) \<noteq> XR_NULL_HANDLE \<and> 7 \<noteq> m_session sampleManager
   \<and> pollEvents sampleManager [EventDataSessionStateChanged 7 XR_SESSION_STATE_READY 0] =
       Inr \<lparr>manager = sampleManager\<lparr>m_sessionState := XR_SESSION_STATE_READY\<rparr>,
            exitRenderLoop = False, requestRestart = False\<rparr>
   \<and> \<not> m_sessionRunning (sampleManager\<lparr>m_sessionState := XR_SESSION_STATE_READY\<rparr>)
   \<and> effects (sampleManager\<lparr>m_sessionState := XR_SESSION_STATE_READY\<rparr>) = []"
proof -
  have a: "(7 :: nat) \<noteq> XR_NULL_HANDLE" by (simp add: XR_NULL_HANDLE_def)
  have b: "7 \<noteq> m_session sampleManager" by (simp add: sampleManager_def)
  have b': "7 \<noteq> m_session (manager \<lparr>manager = sampleManager, exitRenderLoop = False,
                 requestRestart = False\<rparr>)" by (simp add: sampleManager_def)
  from unknown_session_event_ignored [OF a b', of XR_SESSION_STATE_READY sampleManager 0] b
  have "pollEvents sampleManager [EventDataSessionStateChanged 7 XR_SESSION_STATE_READY 0] =
       Inr \<lparr>manager = sampleManager\<lparr>m_sessionState := XR_SESSION_STATE_READY\<rparr>,
            exitRenderLoop = False, requestRestart = False\<rparr>" by blast
  with a b show ?thesis by (simp add: sampleManager_def)
qed


text \<open>
  C4, as stated, fails: a Ready event of another session (7, the manager's is 5) does not
  begin the session. The running flag stays false and no \<open>xrBeginSession\<close> is called.
\<close>

theorem ready_event_of_other_session_counterexample:
  "pollEvents sampleManager [EventDataSessionStateChanged 7 XR_SESSION_STATE_READY 0] =
       Inr \<lparr>manager = sampleManager\<lparr>m_sessionState := XR_SESSION_STATE_READY\<rparr>,
            exitRenderLoop = False, requestRestart = False\<rparr>
   \<and> \<not> m_sessionRunning (sampleManager\<lparr>m_sessionState := XR_SESSION_STATE_READY\<rparr>)
   \<and> XrBeginSession 5 \<notin> set (effects (sampleManager\<lparr>m_sessionState := XR_SESSION_STATE_READY\<rparr>))
   \<and> m_session sampleManager = 5"
  by (simp add: pollEvents_def handleSessionStateChangedEvent_def sampleManager_def
        XR_NULL_HANDLE_def)

text \<open>
  C4, amended. For a session-state-changed event whose session handle is null or the
  manager's own, with a valid session handle in the manager: Ready calls
  \<open>xrBeginSession\<close> and sets the running flag; Stopping clears the running flag and
  calls \<open>xrEndSession\<close>; Exiting sets \<open>exitRenderLoop\<close> and clears \<open>requestRestart\<close>;
  LossPending sets both; every other state only records the state.
\<close>

theorem session_state_transitions:
  assumes "session = XR_NULL_HANDLE \<or> session = m_session (manager ps)"
    and "m_session (manager ps) \<noteq> XR_NULL_HANDLE"
  shows "handleSessionStateChangedEvent session XR_SESSION_STATE_READY ps =
           Inr (ps\<lparr>manager := (manager ps)
                  \<lparr>m_sessionState := XR_SESSION_STATE_READY, m_sessionRunning := True,
                   effects := effects (manager ps) @ [XrBeginSession (m_session (manager ps))]\<rparr>\<rparr>)
       \<and> handleSessionStateChangedEvent session XR_SESSION_STATE_STOPPING ps =
           Inr (ps\<lparr>manager := (manager ps)
                  \<lparr>m_sessionState := XR_SESSION_STATE_STOPPING, m_sessionRunning := False,
                   effects := effects (manager ps) @ [XrEndSession (m_session (manager ps))]\<rparr>\<rparr>)
       \<and> handleSessionStateChangedEvent session XR_SESSION_STATE_EXITING ps =
           Inr (ps\<lparr>manager := (manager ps)\<lparr>m_sessionState := XR_SESSION_STATE_EXITING\<rparr>,
                   exitRenderLoop := True, requestRestart := False\<rparr>)
       \<and> handleSessionStateChangedEvent session XR_SESSION_STATE_LOSS_PENDING ps =
           Inr (ps\<lparr>manager := (manager ps)\<lparr>m_sessionState := XR_SESSION_STATE_LOSS_PENDING\<rparr>,
                   exitRenderLoop := True, requestRestart := True\<rparr>)
       \<and> (state \<notin> {XR_SESSION_STATE_READY, XR_SESSION_STATE_STOPPING,
                      XR_SESSION_STATE_EXITING, XR_SESSION_STATE_LOSS_PENDING} \<longrightarrow>
            handleSessionStateChangedEvent session state ps =
              Inr (ps\<lparr>manager := (manager ps)\<lparr>m_sessionState := state\<rparr>\<rparr>))"
  using assms
  by (cases state) (auto simp add: handleSessionStateChangedEvent_def perform_def)

text \<open>The manager of session 5 and an event of that session.\<close>

theorem session_state_transitions_witness:
  "(5 :: nat) = m_session (manager \<lparr>manager = sampleManager, exitRenderLoop = False,
                                   requestRestart = False\<rparr>)
   \<and> m_session (manager \<lparr>manager = sampleManager, exitRenderLoop = False,
                          requestRestart = False\<rparr>) \<noteq> XR_NULL_HANDLE
   \<and> XR_SESSION_STATE_FOCUSED \<notin> {XR_SESSION_STATE_READY, XR_SESSION_STATE_STOPPING,
                      XR_SESSION_STATE_EXITING, XR_SESSION_STATE_LOSS_PENDING}
   \<and> handleSessionStateChangedEvent 5 XR_SESSION_STATE_READY
         \<lparr>manager = sampleManager, exitRenderLoop = False, requestRestart = False\<rparr> =
       Inr \<lparr>manager = sampleManager\<lparr>m_sessionState := XR_SESSION_STATE_READY,
               m_sessionRunning := True, effects := [XrBeginSession 5]\<rparr>,
            exitRenderLoop = False, requestRestart = False\<rparr>
   \<and> handleSessionStateChangedEvent 5 XR_SESSION_STATE_LOSS_PENDING
         \<lparr>manager = sampleManager, exitRenderLoop = False, requestRestart = False\<rparr> =
       Inr \<lparr>manager = sampleManager\<lparr>m_sessionState := XR_SESSION_STATE_LOSS_PENDING\<rparr>,
            exitRenderLoop = True, requestRestart = True\<rparr>
   \<and> handleSessionStateChangedEvent 5 XR_SESSION_STATE_FOCUSED
         \<lparr>manager = sampleManager, exitRenderLoop = False, requestRestart = False\<rparr> =
       Inr \<lparr>manager = sampleManager\<lparr>m_sessionState := XR_SESSION_STATE_FOCUSED\<rparr>,
            exitRenderLoop = False, requestRestart = False\<rparr>"
proof -
  define ps where
    "ps = \<lparr>manager = sampleManager, exitRenderLoop = False, requestRestart = False\<rparr>"
  have a: "5 = XR_NULL_HANDLE \<or> 5 = m_session (manager ps)"
    by (simp add: ps_def sampleManager_def)
  have b: "m_session (manager ps) \<noteq> XR_NULL_HANDLE"
    by (simp add: ps_def sampleManager_def XR_NULL_HANDLE_def)
  have c: "XR_SESSION_STATE_FOCUSED \<notin> {XR_SESSION_STATE_READY, XR_SESSION_STATE_STOPPING,
                      XR_SESSION_STATE_EXITING, XR_SESSION_STATE_LOSS_PENDING}" by simp
  note t = session_state_transitions [OF a b, of XR_SESSION_STATE_FOCUSED]
  from t c have f: "handleSessionStateChangedEvent 5 XR_SESSION_STATE_FOCUSED ps =
      Inr (ps\<lparr>manager := (manager ps)\<lparr>m_sessionState := XR_SESSION_STATE_FOCUSED\<rparr>\<rparr>)"
    by blast
  from t have r: "handleSessionStateChangedEvent 5 XR_SESSION_STATE_READY ps =
           Inr (ps\<lparr>manager := (manager ps)
                  \<lparr>m_sessionState := XR_SESSION_STATE_READY, m_sessionRunning := True,
                   effects := effects (manager ps) @ [XrBeginSession (m_session (manager ps))]\<rparr>\<rparr>)"
    by blast
  from t have l: "handleSessionStateChangedEvent 5 XR_SESSION_STATE_LOSS_PENDING ps =
           Inr (ps\<lparr>manager := (manager ps)\<lparr>m_sessionState := XR_SESSION_STATE_LOSS_PENDING\<rparr>,
                   exitRenderLoop := True, requestRestart := True\<rparr>)"
    by blast
  have e: "effects sampleManager = []" "m_session sampleManager = 5"
    by (simp_all add: sampleManager_def)
  from a b c f r l e show ?thesis
    unfolding ps_def by (simp add: XR_NULL_HANDLE_def)
qed
subsection \<open>Frames without rendering\<close>

lemma effects_perform [simp]: "effects (perform e s) = effects s @ [e]"
  by (simp add: perform_def)

lemma perform_fields [simp]:
  "m_isFloorResetPending (perform e s) = m_isFloorResetPending s"
  "m_isEmulatingLocalFloor (perform e s) = m_isEmulatingLocalFloor s"
  "m_requestedReferenceSpace (perform e s) = m_requestedReferenceSpace s"
  "m_referenceSpace (perform e s) = m_referenceSpace s"
  "m_appSpace (perform e s) = m_appSpace s"
  "m_session (perform e s) = m_session s"
  "m_availableReferenceSpace (perform e s) = m_availableReferenceSpace s"
  "m_previousTime (perform e s) = m_previousTime s"
  by (simp_all add: perform_def)


text \<open>
  C5. In a frame whose \<open>shouldRender\<close> is false, \<open>renderFrame\<close> ends the frame with a
  layer list that holds no projection layer: the list is empty, or it is the
  passthrough layer alone when passthrough is enabled and supported.
\<close>

theorem no_projection_layer_without_shouldRender:
  assumes "\<not> shouldRender frameState" and "m_session s \<noteq> XR_NULL_HANDLE"
  shows "\<exists>s' layers.
           renderFrame frameState rt s = Inr s'
         \<and> effects s' =
             effects s @ [XrWaitFrame, XrBeginFrame]
             @ (if m_enablePassthrough s \<and> m_passthroughSupported s
                   \<and> m_passthroughLayer s = XR_NULL_HANDLE
                then [XrCreatePassthroughLayer (passthroughLayerCreated rt)] else [])
             @ [XrEndFrame (predictedDisplayTime frameState)
                  (if \<not> m_enablePassthrough s then m_environmentBlendMode s
                   else XR_ENVIRONMENT_BLEND_MODE_OPAQUE)
                  layers]
         \<and> layers = (if m_enablePassthrough s \<and> m_passthroughSupported s
                      then [PassthroughLayer (m_passthroughLayer s')] else [])
         \<and> (\<forall>l \<in> set layers. \<not> isProjectionLayer l)"
  using assms
  by (simp add: renderFrame_def Let_def perform_def createMetaQuestPassthroughLayer_def)

text \<open>A frame with passthrough enabled and supported, and no passthrough layer yet.\<close>

theorem no_projection_layer_without_shouldRender_witness:
  "\<not> shouldRender \<lparr>shouldRender = False, predictedDisplayTime = 1000,
                     predictedDisplayPeriod = 10\<rparr>
   \<and> m_session (sampleManager\<lparr>m_enablePassthrough := True, m_passthroughSupported := True\<rparr>)
       \<noteq> XR_NULL_HANDLE
   \<and> renderFrame \<lparr>shouldRender = False, predictedDisplayTime = 1000, predictedDisplayPeriod = 10\<rparr>
        \<lparr>appSpaceAnswers = \<lparr>createAppSpace = None, createLocalSpace = None,
            createStageSpace = None, locateStageInLocal = None, createFloorSpace = None\<rparr>,
         locateViewsUnqualifiedSuccess = True, viewCountOutput = 2,
         passthroughLayerCreated = 31,
         sceneOrigin = None, locateViewSpace = None\<rparr>
        (sampleManager\<lparr>m_enablePassthrough := True, m_passthroughSupported := True\<rparr>)
     = Inr (sampleManager\<lparr>m_enablePassthrough := True, m_passthroughSupported := True,
              m_passthroughLayer := 31,
              effects := [XrWaitFrame, XrBeginFrame, XrCreatePassthroughLayer 31,
                          XrEndFrame 1000 XR_ENVIRONMENT_BLEND_MODE_OPAQUE [PassthroughLayer 31]]\<rparr>)"
proof -
  define fs where
    "fs = \<lparr>shouldRender = False, predictedDisplayTime = 1000, predictedDisplayPeriod = 10\<rparr>"
  define rt where
    "rt = \<lparr>appSpaceAnswers = \<lparr>createAppSpace = None, createLocalSpace = None,
            createStageSpace = None, locateStageInLocal = None, createFloorSpace = None\<rparr>,
         locateViewsUnqualifiedSuccess = True, viewCountOutput = 2,
         passthroughLayerCreated = (31 :: nat),
         sceneOrigin = None, locateViewSpace = None\<rparr>"
  define sm where
    "sm = sampleManager\<lparr>m_enablePassthrough := True, m_passthroughSupported := True\<rparr>"
  have a: "\<not> shouldRender fs" by (simp add: fs_def)
  have b: "m_session sm \<noteq> XR_NULL_HANDLE"
    by (simp add: sm_def sampleManager_def XR_NULL_HANDLE_def)
  from no_projection_layer_without_shouldRender [OF a b, of rt]
  obtain s' layers where r: "renderFrame fs rt sm = Inr s'"
    and l: "layers = (if m_enablePassthrough sm \<and> m_passthroughSupported sm
                      then [PassthroughLayer (m_passthroughLayer s')] else [])"
    and e: "effects s' =
             effects sm @ [XrWaitFrame, XrBeginFrame]
             @ (if m_enablePassthrough sm \<and> m_passthroughSupported sm
                   \<and> m_passthroughLayer sm = XR_NULL_HANDLE
                then [XrCreatePassthroughLayer (passthroughLayerCreated rt)] else [])
             @ [XrEndFrame (predictedDisplayTime fs)
                  (if \<not> m_enablePassthrough sm then m_environmentBlendMode sm
                   else XR_ENVIRONMENT_BLEND_MODE_OPAQUE)
                  layers]"
    by blast
  have v: "renderFrame fs rt sm =
      Inr (sampleManager\<lparr>m_enablePassthrough := True, m_passthroughSupported := True,
              m_passthroughLayer := 31,
              effects := [XrWaitFrame, XrBeginFrame, XrCreatePassthroughLayer 31,
                          XrEndFrame 1000 XR_ENVIRONMENT_BLEND_MODE_OPAQUE [PassthroughLayer 31]]\<rparr>)"
    by (simp add: renderFrame_def Let_def perform_def createMetaQuestPassthroughLayer_def
          fs_def rt_def sm_def sampleManager_def XR_NULL_HANDLE_def)
  from a b r v show ?thesis
    unfolding fs_def rt_def sm_def by simp
qed
subsection \<open>The emulated floor\<close>

lemma resetEmulatedFloorHeight_fails:
  assumes "m_isEmulatingLocalFloor s"
    and "createLocalSpace rt = None \<or> createStageSpace rt = None \<or> locateStageInLocal rt = None"
  shows "\<exists>s1 calls. resetEmulatedFloorHeight t rt s = Inr (False, s1)
           \<and> \<not> m_isFloorResetPending s1
           \<and> m_requestedReferenceSpace s1 = m_requestedReferenceSpace s
           \<and> m_referenceSpace s1 = m_referenceSpace s
           \<and> m_appSpace s1 = m_appSpace s
           \<and> m_session s1 = m_session s
           \<and> effects s1 = effects s @ calls
           \<and> EmitReferenceSpaceChanged \<notin> set calls"
proof (cases "createLocalSpace rt")
  case None
  with assms(1) show ?thesis
    by (simp add: resetEmulatedFloorHeight_def Let_def)
next
  case (Some localSpace)
  note l = Some
  show ?thesis
  proof (cases "createStageSpace rt")
    case None
    with assms(1) l show ?thesis
      by (simp add: resetEmulatedFloorHeight_def Let_def)
  next
    case (Some stageSpace)
    with assms(2) l have "locateStageInLocal rt = None" by simp
    with assms(1) l Some show ?thesis
      by (simp add: resetEmulatedFloorHeight_def Let_def)
  qed
qed

text \<open>After the fallback no frame sets the pending flag again.\<close>

lemma updateAppSpace_no_retry:
  assumes "\<not> m_isFloorResetPending s" and "m_session s \<noteq> XR_NULL_HANDLE"
    and "m_requestedReferenceSpace s = XR_REFERENCE_SPACE_TYPE_LOCAL
         \<or> m_requestedReferenceSpace s = m_referenceSpace s"
  shows "\<exists>s'. updateAppSpace t rt s = Inr s'
           \<and> \<not> m_isFloorResetPending s' \<and> m_session s' \<noteq> XR_NULL_HANDLE
           \<and> (m_requestedReferenceSpace s' = XR_REFERENCE_SPACE_TYPE_LOCAL
                \<or> m_requestedReferenceSpace s' = m_referenceSpace s')"
proof (cases "m_requestedReferenceSpace s = m_referenceSpace s")
  case True
  with assms show ?thesis
    by (simp add: updateAppSpace_def updateAppSpaceFloorReset_def)
next
  case False
  with assms(3) have r: "m_requestedReferenceSpace s = XR_REFERENCE_SPACE_TYPE_LOCAL" by simp
  show ?thesis
  proof (cases "createAppSpace rt")
    case None
    with assms False r show ?thesis
      by (simp add: updateAppSpace_def setupAppSpace_def Let_def isReferenceSpaceAvailable_def)
  next
    case (Some newAppSpace)
    with assms False r show ?thesis
      by (simp add: updateAppSpace_def setupAppSpace_def Let_def isReferenceSpaceAvailable_def
            updateAppSpaceFloorReset_def)
  qed
qed

lemma updateAppSpaceFrames_no_retry:
  assumes "\<not> m_isFloorResetPending s" and "m_session s \<noteq> XR_NULL_HANDLE"
    and "m_requestedReferenceSpace s = XR_REFERENCE_SPACE_TYPE_LOCAL
         \<or> m_requestedReferenceSpace s = m_referenceSpace s"
  shows "\<exists>s'. updateAppSpaceFrames frames s = Inr s' \<and> \<not> m_isFloorResetPending s'"
  using assms
proof (induction frames arbitrary: s)
  case Nil
  then show ?case by simp
next
  case (Cons f frames)
  obtain t rt where f: "f = (t, rt)" by (cases f)
  from updateAppSpace_no_retry [OF Cons.prems, of t rt]
  obtain s1 where s1: "updateAppSpace t rt s = Inr s1" "\<not> m_isFloorResetPending s1"
      "m_session s1 \<noteq> XR_NULL_HANDLE"
      "m_requestedReferenceSpace s1 = XR_REFERENCE_SPACE_TYPE_LOCAL
        \<or> m_requestedReferenceSpace s1 = m_referenceSpace s1"
    by blast
  from Cons.IH [OF s1(2) s1(3) s1(4)] s1(1) f show ?case by simp
qed

lemma updateAppSpaceFrames_settled:
  assumes "\<not> m_isFloorResetPending s"
    and "m_requestedReferenceSpace s = m_referenceSpace s"
  shows "updateAppSpaceFrames frames s = Inr s"
proof (induction frames)
  case Nil
  then show ?case by simp
next
  case (Cons f frames)
  obtain t rt where f: "f = (t, rt)" by (cases f)
  from assms have "updateAppSpace t rt s = Inr s"
    by (simp add: updateAppSpace_def updateAppSpaceFloorReset_def)
  with Cons.IH f show ?case by simp
qed

text \<open>
  When the app space is the local one, as a successful \<open>setupAppSpace\<close> leaves it with
  the reset pending, the fallback is the one \<open>updateAppSpace\<close> describes in its comment:
  the requested and the reported space are the local one, the app space is kept, the
  pending flag is cleared, one reference-space-changed signal is emitted, and no later
  frame changes anything.
\<close>

lemma floor_reset_failure_settles:
  assumes "m_isFloorResetPending s" and "m_isEmulatingLocalFloor s"
    and "m_referenceSpace s = XR_REFERENCE_SPACE_TYPE_LOCAL"
    and "createLocalSpace rt = None \<or> createStageSpace rt = None \<or> locateStageInLocal rt = None"
  shows "\<exists>s' calls.
           updateAppSpace t rt s = Inr s'
         \<and> m_requestedReferenceSpace s' = XR_REFERENCE_SPACE_TYPE_LOCAL
         \<and> m_referenceSpace s' = XR_REFERENCE_SPACE_TYPE_LOCAL
         \<and> \<not> m_isFloorResetPending s'
         \<and> m_appSpace s' = m_appSpace s
         \<and> effects s' = effects s @ calls @ [EmitReferenceSpaceChanged]
         \<and> EmitReferenceSpaceChanged \<notin> set calls
         \<and> (\<forall>frames. updateAppSpaceFrames frames s' = Inr s')"
proof -
  from resetEmulatedFloorHeight_fails [OF assms(2) assms(4), of t]
  obtain s1 calls where r: "resetEmulatedFloorHeight t rt s = Inr (False, s1)"
      "\<not> m_isFloorResetPending s1"
      "m_referenceSpace s1 = m_referenceSpace s"
      "m_appSpace s1 = m_appSpace s"
      "effects s1 = effects s @ calls"
      "EmitReferenceSpaceChanged \<notin> set calls"
    by blast
  define s' where "s' = perform EmitReferenceSpaceChanged
      (s1\<lparr>m_requestedReferenceSpace := XR_REFERENCE_SPACE_TYPE_LOCAL\<rparr>)"
  have u: "updateAppSpace t rt s = Inr s'"
    using assms(1) r(1) by (simp add: updateAppSpace_def updateAppSpaceFloorReset_def s'_def)
  have p: "\<not> m_isFloorResetPending s'" using r(2) by (simp add: s'_def)
  have q: "m_requestedReferenceSpace s' = XR_REFERENCE_SPACE_TYPE_LOCAL" by (simp add: s'_def)
  have a: "m_appSpace s' = m_appSpace s" using r(4) by (simp add: s'_def)
  have b: "m_referenceSpace s' = XR_REFERENCE_SPACE_TYPE_LOCAL"
    using r(3) assms(3) by (simp add: s'_def)
  have e: "effects s' = effects s @ calls @ [EmitReferenceSpaceChanged]"
    using r(5) by (simp add: s'_def)
  have settled: "\<forall>frames. updateAppSpaceFrames frames s' = Inr s'"
    using updateAppSpaceFrames_settled [OF p] q b by simp
  from u q b p a e r(6) settled show ?thesis by blast
qed

text \<open>
  C6. The claim holds from the states that a successful \<open>setupAppSpace\<close> leaves
  (\<open>floor_reset_failure_settles\<close>), but \<open>setupAppSpace\<close> sets both emulation flags before
  it creates the local space and leaves them set when that creation fails. A manager
  whose app space is the stage space and which is asked for the floor-relative space:
  in the first frame the creation of the local space fails, the flags stay set and the
  requested space goes back to the stage space. In the second frame the reset is pending
  and locating the stage space fails: the requested space becomes the local one and
  the signal is emitted, but the app space is still the stage space (handle 11) and the
  reported space is the stage space. In the third frame \<open>setupAppSpace\<close> runs again: when
  the creation succeeds the local space replaces the app space and a second signal is
  emitted; when it fails the requested space goes back to the stage space, and no later
  frame changes that.
\<close>

theorem failed_setup_leaves_reset_pending:
  "updateAppSpace 1000
     \<lparr>createAppSpace = None, createLocalSpace = None, createStageSpace = None,
      locateStageInLocal = None, createFloorSpace = None\<rparr>
     (sampleManager\<lparr>m_referenceSpace := XR_REFERENCE_SPACE_TYPE_STAGE,
                    m_isEmulatingLocalFloor := False, m_isFloorResetPending := False\<rparr>)
   = Inr (sampleManager\<lparr>m_requestedReferenceSpace := XR_REFERENCE_SPACE_TYPE_STAGE,
            m_referenceSpace := XR_REFERENCE_SPACE_TYPE_STAGE,
            effects := [XrCreateReferenceSpace XR_REFERENCE_SPACE_TYPE_LOCAL identityPose None]\<rparr>)
   \<and> m_isFloorResetPending sampleManager \<and> m_isEmulatingLocalFloor sampleManager
   \<and> m_appSpace sampleManager = 11
   \<and> updateAppSpace 2000
        \<lparr>createAppSpace = None, createLocalSpace = Some 31, createStageSpace = Some 32,
         locateStageInLocal = None, createFloorSpace = None\<rparr>
        (sampleManager\<lparr>m_requestedReferenceSpace := XR_REFERENCE_SPACE_TYPE_STAGE,
            m_referenceSpace := XR_REFERENCE_SPACE_TYPE_STAGE,
            effects := [XrCreateReferenceSpace XR_REFERENCE_SPACE_TYPE_LOCAL identityPose None]\<rparr>)
     = Inr (sampleManager\<lparr>m_requestedReferenceSpace := XR_REFERENCE_SPACE_TYPE_LOCAL,
            m_referenceSpace := XR_REFERENCE_SPACE_TYPE_STAGE,
            m_isFloorResetPending := False,
            effects := [XrCreateReferenceSpace XR_REFERENCE_SPACE_TYPE_LOCAL identityPose None,
                        XrCreateReferenceSpace XR_REFERENCE_SPACE_TYPE_LOCAL identityPose (Some 31),
                        XrCreateReferenceSpace XR_REFERENCE_SPACE_TYPE_STAGE identityPose (Some 32),
                        XrLocateSpace 32 31 2000 None, XrDestroySpace 31, XrDestroySpace 32,
                        EmitReferenceSpaceChanged]\<rparr>)
   \<and> updateAppSpace 3000
        \<lparr>createAppSpace = Some 33, createLocalSpace = None, createStageSpace = None,
         locateStageInLocal = None, createFloorSpace = None\<rparr>
        (sampleManager\<lparr>m_requestedReferenceSpace := XR_REFERENCE_SPACE_TYPE_LOCAL,
            m_referenceSpace := XR_REFERENCE_SPACE_TYPE_STAGE,
            m_isFloorResetPending := False,
            effects := [XrCreateReferenceSpace XR_REFERENCE_SPACE_TYPE_LOCAL identityPose None,
                        XrCreateReferenceSpace XR_REFERENCE_SPACE_TYPE_LOCAL identityPose (Some 31),
                        XrCreateReferenceSpace XR_REFERENCE_SPACE_TYPE_STAGE identityPose (Some 32),
                        XrLocateSpace 32 31 2000 None, XrDestroySpace 31, XrDestroySpace 32,
                        EmitReferenceSpaceChanged]\<rparr>)
     = Inr (sampleManager\<lparr>m_requestedReferenceSpace := XR_REFERENCE_SPACE_TYPE_LOCAL,
            m_referenceSpace := XR_REFERENCE_SPACE_TYPE_LOCAL,
            m_isEmulatingLocalFloor := False,
            m_isFloorResetPending := False,
            m_appSpace := 33,
            effects := [XrCreateReferenceSpace XR_REFERENCE_SPACE_TYPE_LOCAL identityPose None,
                        XrCreateReferenceSpace XR_REFERENCE_SPACE_TYPE_LOCAL identityPose (Some 31),
                        XrCreateReferenceSpace XR_REFERENCE_SPACE_TYPE_STAGE identityPose (Some 32),
                        XrLocateSpace 32 31 2000 None, XrDestroySpace 31, XrDestroySpace 32,
                        EmitReferenceSpaceChanged,
                        XrCreateReferenceSpace XR_REFERENCE_SPACE_TYPE_LOCAL identityPose (Some 33),
                        XrDestroySpace 11,
                        EmitReferenceSpaceChanged]\<rparr>)
   \<and> (\<forall>frames. updateAppSpaceFrames ((3000,
        \<lparr>createAppSpace = None, createLocalSpace = None, createStageSpace = None,
         locateStageInLocal = None, createFloorSpace = None\<rparr>) # frames)
        (sampleManager\<lparr>m_requestedReferenceSpace := XR_REFERENCE_SPACE_TYPE_LOCAL,
            m_referenceSpace := XR_REFERENCE_SPACE_TYPE_STAGE,
            m_isFloorResetPending := False,
            effects := [XrCreateReferenceSpace XR_REFERENCE_SPACE_TYPE_LOCAL identityPose None,
                        XrCreateReferenceSpace XR_REFERENCE_SPACE_TYPE_LOCAL identityPose (Some 31),
                        XrCreateReferenceSpace XR_REFERENCE_SPACE_TYPE_STAGE identityPose (Some 32),
                        XrLocateSpace 32 31 2000 None, XrDestroySpace 31, XrDestroySpace 32,
                        EmitReferenceSpaceChanged]\<rparr>)
     = Inr (sampleManager\<lparr>m_requestedReferenceSpace := XR_REFERENCE_SPACE_TYPE_STAGE,
            m_referenceSpace := XR_REFERENCE_SPACE_TYPE_STAGE,
            m_isEmulatingLocalFloor := False,
            m_isFloorResetPending := False,
            effects := [XrCreateReferenceSpace XR_REFERENCE_SPACE_TYPE_LOCAL identityPose None,
                        XrCreateReferenceSpace XR_REFERENCE_SPACE_TYPE_LOCAL identityPose (Some 31),
                        XrCreateReferenceSpace XR_REFERENCE_SPACE_TYPE_STAGE identityPose (Some 32),
                        XrLocateSpace 32 31 2000 None, XrDestroySpace 31, XrDestroySpace 32,
                        EmitReferenceSpaceChanged,
                        XrCreateReferenceSpace XR_REFERENCE_SPACE_TYPE_LOCAL identityPose None]\<rparr>))"
proof -
  define none where
    "none = \<lparr>createAppSpace = None, createLocalSpace = None, createStageSpace = None,
             locateStageInLocal = None, createFloorSpace = None\<rparr>"
  define s0 where
    "s0 = sampleManager\<lparr>m_referenceSpace := XR_REFERENCE_SPACE_TYPE_STAGE,
                    m_isEmulatingLocalFloor := False, m_isFloorResetPending := False\<rparr>"
  define s1 where
    "s1 = sampleManager\<lparr>m_requestedReferenceSpace := XR_REFERENCE_SPACE_TYPE_STAGE,
            m_referenceSpace := XR_REFERENCE_SPACE_TYPE_STAGE,
            effects := [XrCreateReferenceSpace XR_REFERENCE_SPACE_TYPE_LOCAL identityPose None]\<rparr>"
  define s2 where
    "s2 = sampleManager\<lparr>m_requestedReferenceSpace := XR_REFERENCE_SPACE_TYPE_LOCAL,
            m_referenceSpace := XR_REFERENCE_SPACE_TYPE_STAGE,
            m_isFloorResetPending := False,
            effects := [XrCreateReferenceSpace XR_REFERENCE_SPACE_TYPE_LOCAL identityPose None,
                        XrCreateReferenceSpace XR_REFERENCE_SPACE_TYPE_LOCAL identityPose (Some 31),
                        XrCreateReferenceSpace XR_REFERENCE_SPACE_TYPE_STAGE identityPose (Some 32),
                        XrLocateSpace 32 31 2000 None, XrDestroySpace 31, XrDestroySpace 32,
                        EmitReferenceSpaceChanged]\<rparr>"
  define s3 where
    "s3 = s2\<lparr>m_requestedReferenceSpace := XR_REFERENCE_SPACE_TYPE_STAGE,
            m_isEmulatingLocalFloor := False,
            effects := effects s2
              @ [XrCreateReferenceSpace XR_REFERENCE_SPACE_TYPE_LOCAL identityPose None]\<rparr>"
  have f1: "updateAppSpace 1000 none s0 = Inr s1"
    by (simp add: updateAppSpace_def setupAppSpace_def Let_def perform_def
          isReferenceSpaceAvailable_def none_def s0_def s1_def sampleManager_def
          XR_NULL_HANDLE_def)
  have h: "m_isFloorResetPending sampleManager" "m_isEmulatingLocalFloor sampleManager"
      "m_appSpace sampleManager = 11"
    by (simp_all add: sampleManager_def)
  have f2: "updateAppSpace 2000
        \<lparr>createAppSpace = None, createLocalSpace = Some 31, createStageSpace = Some 32,
         locateStageInLocal = None, createFloorSpace = None\<rparr> s1 = Inr s2"
    by (simp add: updateAppSpace_def updateAppSpaceFloorReset_def resetEmulatedFloorHeight_def
          Let_def perform_def s1_def s2_def sampleManager_def)
  have f3: "updateAppSpace 3000
        \<lparr>createAppSpace = Some 33, createLocalSpace = None, createStageSpace = None,
         locateStageInLocal = None, createFloorSpace = None\<rparr> s2
     = Inr (s2\<lparr>m_referenceSpace := XR_REFERENCE_SPACE_TYPE_LOCAL,
            m_isEmulatingLocalFloor := False,
            m_appSpace := 33,
            effects := effects s2
              @ [XrCreateReferenceSpace XR_REFERENCE_SPACE_TYPE_LOCAL identityPose (Some 33),
                 XrDestroySpace 11, EmitReferenceSpaceChanged]\<rparr>)"
    by (simp add: updateAppSpace_def updateAppSpaceFloorReset_def setupAppSpace_def Let_def
          perform_def isReferenceSpaceAvailable_def s2_def sampleManager_def XR_NULL_HANDLE_def)
  have f4: "updateAppSpace 3000 none s2 = Inr s3"
    by (simp add: updateAppSpace_def setupAppSpace_def Let_def perform_def
          isReferenceSpaceAvailable_def none_def s2_def s3_def sampleManager_def
          XR_NULL_HANDLE_def)
  have p3: "\<not> m_isFloorResetPending s3" "m_requestedReferenceSpace s3 = m_referenceSpace s3"
    by (simp_all add: s3_def s2_def)
  have f5: "\<forall>frames. updateAppSpaceFrames ((3000, none) # frames) s2 = Inr s3"
    using f4 updateAppSpaceFrames_settled [OF p3] by simp
  from f1 h f2 f3 f5 show ?thesis
    unfolding none_def s0_def s1_def s3_def s2_def by simp
qed

lemma setupAppSpace_emulates:
  assumes "m_session s0 \<noteq> XR_NULL_HANDLE"
    and "m_requestedReferenceSpace s0 = XR_REFERENCE_SPACE_TYPE_LOCAL_FLOOR_EXT"
    and "\<not> isReferenceSpaceAvailable s0 XR_REFERENCE_SPACE_TYPE_LOCAL_FLOOR_EXT"
    and "isReferenceSpaceAvailable s0 XR_REFERENCE_SPACE_TYPE_STAGE"
  shows "setupAppSpace (Some a) s0 =
           Inr (True, s0\<lparr>m_isEmulatingLocalFloor := True, m_isFloorResetPending := True,
                        m_appSpace := a, m_referenceSpace := XR_REFERENCE_SPACE_TYPE_LOCAL,
                        effects := effects s0
                          @ [XrCreateReferenceSpace XR_REFERENCE_SPACE_TYPE_LOCAL identityPose (Some a)]
                          @ (if m_appSpace s0 \<noteq> XR_NULL_HANDLE
                             then [XrDestroySpace (m_appSpace s0)] else [])\<rparr>)"
  using assms
  by (simp add: setupAppSpace_def Let_def isReferenceSpaceAvailable_def perform_def)

lemma resetEmulatedFloorHeight_succeeds:
  assumes "m_isEmulatingLocalFloor s"
    and "createLocalSpace rt = Some l" and "createStageSpace rt = Some g"
    and "locateStageInLocal rt = Some loc" and "createFloorSpace rt = Some h"
  shows "resetEmulatedFloorHeight t rt s =
           Inr (True, s\<lparr>m_isFloorResetPending := False, m_appSpace := h,
                        m_referenceSpace := XR_REFERENCE_SPACE_TYPE_LOCAL_FLOOR_EXT,
                        effects := effects s
                          @ [XrCreateReferenceSpace XR_REFERENCE_SPACE_TYPE_LOCAL identityPose (Some l),
                             XrCreateReferenceSpace XR_REFERENCE_SPACE_TYPE_STAGE identityPose (Some g),
                             XrLocateSpace g l t (Some loc),
                             XrDestroySpace l, XrDestroySpace g,
                             XrCreateReferenceSpace XR_REFERENCE_SPACE_TYPE_LOCAL (floorPose loc) (Some h),
                             XrDestroySpace (m_appSpace s),
                             EmitReferenceSpaceChanged]\<rparr>)"
  using assms
  by (simp add: resetEmulatedFloorHeight_def Let_def perform_def floorPose_def)

text \<open>
  C7, as stated, fails when the runtime refuses to create the new app space after the
  stage space was located: the reported reference space stays the local one, the app
  space stays the un-adjusted one, and the only signal is that of the fallback.
\<close>

theorem floor_space_creation_fails_counterexample:
  "setupAppSpace (Some 11)
     (sampleManager\<lparr>m_isEmulatingLocalFloor := False, m_isFloorResetPending := False,
                    m_appSpace := XR_NULL_HANDLE\<rparr>)
     = Inr (True, sampleManager\<lparr>effects :=
              [XrCreateReferenceSpace XR_REFERENCE_SPACE_TYPE_LOCAL identityPose (Some 11)]\<rparr>)
   \<and> updateAppSpace 1000
        \<lparr>createAppSpace = None, createLocalSpace = Some 31, createStageSpace = Some 32,
         locateStageInLocal = Some (identityPose\<lparr>position :=
             \<lparr>vec_x = 0, vec_y = 0x3FC00000, vec_z = 0\<rparr>\<rparr>),
         createFloorSpace = None\<rparr>
        (sampleManager\<lparr>effects :=
              [XrCreateReferenceSpace XR_REFERENCE_SPACE_TYPE_LOCAL identityPose (Some 11)]\<rparr>)
     = Inr (sampleManager\<lparr>m_requestedReferenceSpace := XR_REFERENCE_SPACE_TYPE_LOCAL,
              m_isFloorResetPending := False,
              effects :=
                [XrCreateReferenceSpace XR_REFERENCE_SPACE_TYPE_LOCAL identityPose (Some 11),
                 XrCreateReferenceSpace XR_REFERENCE_SPACE_TYPE_LOCAL identityPose (Some 31),
                 XrCreateReferenceSpace XR_REFERENCE_SPACE_TYPE_STAGE identityPose (Some 32),
                 XrLocateSpace 32 31 1000 (Some (identityPose\<lparr>position :=
                      \<lparr>vec_x = 0, vec_y = 0x3FC00000, vec_z = 0\<rparr>\<rparr>)),
                 XrDestroySpace 31, XrDestroySpace 32,
                 XrCreateReferenceSpace XR_REFERENCE_SPACE_TYPE_LOCAL
                   (identityPose\<lparr>position := \<lparr>vec_x = 0, vec_y = 0x3FC00000, vec_z = 0\<rparr>\<rparr>) None,
                 EmitReferenceSpaceChanged]\<rparr>)
   \<and> m_referenceSpace sampleManager = XR_REFERENCE_SPACE_TYPE_LOCAL
   \<and> m_appSpace sampleManager = 11
   \<and> m_requestedReferenceSpace sampleManager = XR_REFERENCE_SPACE_TYPE_LOCAL_FLOOR_EXT
   \<and> m_availableReferenceSpace sampleManager =
        [XR_REFERENCE_SPACE_TYPE_VIEW, XR_REFERENCE_SPACE_TYPE_LOCAL, XR_REFERENCE_SPACE_TYPE_STAGE]"
  by (simp add: setupAppSpace_def updateAppSpace_def updateAppSpaceFloorReset_def
        resetEmulatedFloorHeight_def Let_def perform_def isReferenceSpaceAvailable_def
        floorPose_def sampleManager_def identityPose_def XR_NULL_HANDLE_def)

lemma resetEmulatedFloorHeight_no_floor_space:
  assumes "m_isEmulatingLocalFloor s"
    and "createLocalSpace rt = Some l" and "createStageSpace rt = Some g"
    and "locateStageInLocal rt = Some loc" and "createFloorSpace rt = None"
  shows "resetEmulatedFloorHeight t rt s =
           Inr (False, s\<lparr>m_isFloorResetPending := False,
                        effects := effects s
                          @ [XrCreateReferenceSpace XR_REFERENCE_SPACE_TYPE_LOCAL identityPose (Some l),
                             XrCreateReferenceSpace XR_REFERENCE_SPACE_TYPE_STAGE identityPose (Some g),
                             XrLocateSpace g l t (Some loc),
                             XrDestroySpace l, XrDestroySpace g,
                             XrCreateReferenceSpace XR_REFERENCE_SPACE_TYPE_LOCAL (floorPose loc) None]\<rparr>)"
  using assms
  by (simp add: resetEmulatedFloorHeight_def Let_def perform_def floorPose_def)

text \<open>
  C7, amended. A floor-relative space is requested, it is not available and the stage
  space is: \<open>setupAppSpace\<close> sets up the local space with the reset pending and emits
  nothing. In the next \<open>updateAppSpace\<close> in which the temporary spaces are created and
  the stage space is located, the new app space is asked for with the identity pose but
  for its \<open>y\<close>, which is the \<open>y\<close> of the located stage pose. When the runtime creates it,
  it becomes the app space, the reported reference space becomes the floor-relative one
  and one reference-space-changed signal is emitted. When the runtime does not, the
  manager falls back as for a failed locate: the app space stays the un-adjusted local
  one, the requested and the reported space are the local one, one signal is emitted,
  and no later frame changes anything.
\<close>

theorem emulated_floor_height:
  assumes "m_session s0 \<noteq> XR_NULL_HANDLE"
    and "m_requestedReferenceSpace s0 = XR_REFERENCE_SPACE_TYPE_LOCAL_FLOOR_EXT"
    and "\<not> isReferenceSpaceAvailable s0 XR_REFERENCE_SPACE_TYPE_LOCAL_FLOOR_EXT"
    and "isReferenceSpaceAvailable s0 XR_REFERENCE_SPACE_TYPE_STAGE"
    and "createLocalSpace rt = Some l" and "createStageSpace rt = Some g"
    and "locateStageInLocal rt = Some loc"
  shows "\<exists>s1 s2.
           setupAppSpace (Some a) s0 = Inr (True, s1)
         \<and> m_isFloorResetPending s1 \<and> m_isEmulatingLocalFloor s1
         \<and> m_referenceSpace s1 = XR_REFERENCE_SPACE_TYPE_LOCAL
         \<and> m_appSpace s1 = a
         \<and> EmitReferenceSpaceChanged \<notin> set (drop (length (effects s0)) (effects s1))
         \<and> updateAppSpace t rt s1 = Inr s2
         \<and> \<not> m_isFloorResetPending s2
         \<and> (case createFloorSpace rt of
               Some h \<Rightarrow>
                 m_appSpace s2 = h
               \<and> m_referenceSpace s2 = XR_REFERENCE_SPACE_TYPE_LOCAL_FLOOR_EXT
               \<and> m_requestedReferenceSpace s2 = XR_REFERENCE_SPACE_TYPE_LOCAL_FLOOR_EXT
               \<and> effects s2 = effects s1
                    @ [XrCreateReferenceSpace XR_REFERENCE_SPACE_TYPE_LOCAL identityPose (Some l),
                       XrCreateReferenceSpace XR_REFERENCE_SPACE_TYPE_STAGE identityPose (Some g),
                       XrLocateSpace g l t (Some loc),
                       XrDestroySpace l, XrDestroySpace g,
                       XrCreateReferenceSpace XR_REFERENCE_SPACE_TYPE_LOCAL (floorPose loc) (Some h),
                       XrDestroySpace a,
                       EmitReferenceSpaceChanged]
             | None \<Rightarrow>
                 m_appSpace s2 = a
               \<and> m_referenceSpace s2 = XR_REFERENCE_SPACE_TYPE_LOCAL
               \<and> m_requestedReferenceSpace s2 = XR_REFERENCE_SPACE_TYPE_LOCAL
               \<and> effects s2 = effects s1
                    @ [XrCreateReferenceSpace XR_REFERENCE_SPACE_TYPE_LOCAL identityPose (Some l),
                       XrCreateReferenceSpace XR_REFERENCE_SPACE_TYPE_STAGE identityPose (Some g),
                       XrLocateSpace g l t (Some loc),
                       XrDestroySpace l, XrDestroySpace g,
                       XrCreateReferenceSpace XR_REFERENCE_SPACE_TYPE_LOCAL (floorPose loc) None,
                       EmitReferenceSpaceChanged]
               \<and> (\<forall>frames. updateAppSpaceFrames frames s2 = Inr s2))
         \<and> vec_y (position (floorPose loc)) = vec_y (position loc)
         \<and> vec_x (position (floorPose loc)) = 0 \<and> vec_z (position (floorPose loc)) = 0
         \<and> orientation (floorPose loc) = orientation identityPose"
proof -
  define s1 where "s1 = s0\<lparr>m_isEmulatingLocalFloor := True, m_isFloorResetPending := True,
                        m_appSpace := a, m_referenceSpace := XR_REFERENCE_SPACE_TYPE_LOCAL,
                        effects := effects s0
                          @ [XrCreateReferenceSpace XR_REFERENCE_SPACE_TYPE_LOCAL identityPose (Some a)]
                          @ (if m_appSpace s0 \<noteq> XR_NULL_HANDLE
                             then [XrDestroySpace (m_appSpace s0)] else [])\<rparr>"
  have su: "setupAppSpace (Some a) s0 = Inr (True, s1)"
    unfolding s1_def by (rule setupAppSpace_emulates [OF assms(1-4)])
  have f1: "m_isFloorResetPending s1" "m_isEmulatingLocalFloor s1"
      "m_referenceSpace s1 = XR_REFERENCE_SPACE_TYPE_LOCAL" "m_appSpace s1 = a"
    by (simp_all add: s1_def)
  have rq: "m_requestedReferenceSpace s1 = XR_REFERENCE_SPACE_TYPE_LOCAL_FLOOR_EXT"
    using assms(2) by (simp add: s1_def)
  have ne: "EmitReferenceSpaceChanged \<notin> set (drop (length (effects s0)) (effects s1))"
    by (simp add: s1_def)
  have po: "vec_y (position (floorPose loc)) = vec_y (position loc)"
      "vec_x (position (floorPose loc)) = 0" "vec_z (position (floorPose loc)) = 0"
      "orientation (floorPose loc) = orientation identityPose"
    by (simp_all add: floorPose_def identityPose_def)
  show ?thesis
  proof (cases "createFloorSpace rt")
    case (Some h)
    define s2 where "s2 = s1\<lparr>m_isFloorResetPending := False, m_appSpace := h,
                        m_referenceSpace := XR_REFERENCE_SPACE_TYPE_LOCAL_FLOOR_EXT,
                        effects := effects s1
                          @ [XrCreateReferenceSpace XR_REFERENCE_SPACE_TYPE_LOCAL identityPose (Some l),
                             XrCreateReferenceSpace XR_REFERENCE_SPACE_TYPE_STAGE identityPose (Some g),
                             XrLocateSpace g l t (Some loc),
                             XrDestroySpace l, XrDestroySpace g,
                             XrCreateReferenceSpace XR_REFERENCE_SPACE_TYPE_LOCAL (floorPose loc) (Some h),
                             XrDestroySpace (m_appSpace s1),
                             EmitReferenceSpaceChanged]\<rparr>"
    have re: "resetEmulatedFloorHeight t rt s1 = Inr (True, s2)"
      unfolding s2_def by (rule resetEmulatedFloorHeight_succeeds [OF f1(2) assms(5-7) Some])
    have up: "updateAppSpace t rt s1 = Inr s2"
      using f1(1) re by (simp add: updateAppSpace_def updateAppSpaceFloorReset_def)
    have f2: "m_appSpace s2 = h" "m_referenceSpace s2 = XR_REFERENCE_SPACE_TYPE_LOCAL_FLOOR_EXT"
        "\<not> m_isFloorResetPending s2"
        "m_requestedReferenceSpace s2 = XR_REFERENCE_SPACE_TYPE_LOCAL_FLOOR_EXT"
      using rq by (simp_all add: s2_def)
    have e2: "effects s2 = effects s1
              @ [XrCreateReferenceSpace XR_REFERENCE_SPACE_TYPE_LOCAL identityPose (Some l),
                 XrCreateReferenceSpace XR_REFERENCE_SPACE_TYPE_STAGE identityPose (Some g),
                 XrLocateSpace g l t (Some loc),
                 XrDestroySpace l, XrDestroySpace g,
                 XrCreateReferenceSpace XR_REFERENCE_SPACE_TYPE_LOCAL (floorPose loc) (Some h),
                 XrDestroySpace a,
                 EmitReferenceSpaceChanged]"
      using f1(4) by (simp add: s2_def)
    from su f1 ne up f2 e2 po Some show ?thesis
      by (intro exI [of _ s1] exI [of _ s2]) simp
  next
    case None
    define s2 where "s2 = s1\<lparr>m_isFloorResetPending := False,
                        m_requestedReferenceSpace := XR_REFERENCE_SPACE_TYPE_LOCAL,
                        effects := effects s1
                          @ [XrCreateReferenceSpace XR_REFERENCE_SPACE_TYPE_LOCAL identityPose (Some l),
                             XrCreateReferenceSpace XR_REFERENCE_SPACE_TYPE_STAGE identityPose (Some g),
                             XrLocateSpace g l t (Some loc),
                             XrDestroySpace l, XrDestroySpace g,
                             XrCreateReferenceSpace XR_REFERENCE_SPACE_TYPE_LOCAL (floorPose loc) None,
                             EmitReferenceSpaceChanged]\<rparr>"
    have up: "updateAppSpace t rt s1 = Inr s2"
      using f1(1)
      by (simp add: updateAppSpace_def updateAppSpaceFloorReset_def perform_def s2_def
            resetEmulatedFloorHeight_no_floor_space [OF f1(2) assms(5-7) None])
    have f2: "m_appSpace s2 = a" "m_referenceSpace s2 = XR_REFERENCE_SPACE_TYPE_LOCAL"
        "\<not> m_isFloorResetPending s2"
        "m_requestedReferenceSpace s2 = XR_REFERENCE_SPACE_TYPE_LOCAL"
      using f1 by (simp_all add: s2_def)
    have e2: "effects s2 = effects s1
              @ [XrCreateReferenceSpace XR_REFERENCE_SPACE_TYPE_LOCAL identityPose (Some l),
                 XrCreateReferenceSpace XR_REFERENCE_SPACE_TYPE_STAGE identityPose (Some g),
                 XrLocateSpace g l t (Some loc),
                 XrDestroySpace l, XrDestroySpace g,
                 XrCreateReferenceSpace XR_REFERENCE_SPACE_TYPE_LOCAL (floorPose loc) None,
                 EmitReferenceSpaceChanged]"
      by (simp add: s2_def)
    have st: "\<forall>frames. updateAppSpaceFrames frames s2 = Inr s2"
      using updateAppSpaceFrames_settled [OF f2(3)] f2(2) f2(4) by simp
    from su f1 ne up f2 e2 st po None show ?thesis
      by (intro exI [of _ s1] exI [of _ s2]) simp
  qed
qed

text \<open>
  The sample manager before its app space is set up; the stage lies at \<open>y = 1.5f\<close>. The
  runtime creates the new app space, or it does not.
\<close>

theorem emulated_floor_height_witness:
  "m_session (sampleManager\<lparr>m_isEmulatingLocalFloor := False, m_isFloorResetPending := False,
                            m_appSpace := XR_NULL_HANDLE\<rparr>) \<noteq> XR_NULL_HANDLE
   \<and> m_requestedReferenceSpace (sampleManager\<lparr>m_isEmulatingLocalFloor := False,
          m_isFloorResetPending := False, m_appSpace := XR_NULL_HANDLE\<rparr>)
       = XR_REFERENCE_SPACE_TYPE_LOCAL_FLOOR_EXT
   \<and> \<not> isReferenceSpaceAvailable (sampleManager\<lparr>m_isEmulatingLocalFloor := False,
          m_isFloorResetPending := False, m_appSpace := XR_NULL_HANDLE\<rparr>)
         XR_REFERENCE_SPACE_TYPE_LOCAL_FLOOR_EXT
   \<and> isReferenceSpaceAvailable (sampleManager\<lparr>m_isEmulatingLocalFloor := False,
          m_isFloorResetPending := False, m_appSpace := XR_NULL_HANDLE\<rparr>)
         XR_REFERENCE_SPACE_TYPE_STAGE
   \<and> (\<exists>s1 s2.
         setupAppSpace (Some 11) (sampleManager\<lparr>m_isEmulatingLocalFloor := False,
             m_isFloorResetPending := False, m_appSpace := XR_NULL_HANDLE\<rparr>) = Inr (True, s1)
       \<and> updateAppSpace 1000
            \<lparr>createAppSpace = None, createLocalSpace = Some 31, createStageSpace = Some 32,
             locateStageInLocal = Some (identityPose\<lparr>position :=
                 \<lparr>vec_x = 0, vec_y = 0x3FC00000, vec_z = 0\<rparr>\<rparr>),
             createFloorSpace = Some 33\<rparr> s1 = Inr s2
       \<and> m_appSpace s2 = 33
       \<and> m_referenceSpace s2 = XR_REFERENCE_SPACE_TYPE_LOCAL_FLOOR_EXT
       \<and> XrCreateReferenceSpace XR_REFERENCE_SPACE_TYPE_LOCAL
            (floorPose (identityPose\<lparr>position :=
                 \<lparr>vec_x = 0, vec_y = 0x3FC00000, vec_z = 0\<rparr>\<rparr>)) (Some 33) \<in> set (effects s2)
       \<and> last (effects s2) = EmitReferenceSpaceChanged)
   \<and> (\<exists>s1 s2.
         setupAppSpace (Some 11) (sampleManager\<lparr>m_isEmulatingLocalFloor := False,
             m_isFloorResetPending := False, m_appSpace := XR_NULL_HANDLE\<rparr>) = Inr (True, s1)
       \<and> updateAppSpace 1000
            \<lparr>createAppSpace = None, createLocalSpace = Some 31, createStageSpace = Some 32,
             locateStageInLocal = Some (identityPose\<lparr>position :=
                 \<lparr>vec_x = 0, vec_y = 0x3FC00000, vec_z = 0\<rparr>\<rparr>),
             createFloorSpace = None\<rparr> s1 = Inr s2
       \<and> m_appSpace s2 = 11
       \<and> m_referenceSpace s2 = XR_REFERENCE_SPACE_TYPE_LOCAL
       \<and> m_requestedReferenceSpace s2 = XR_REFERENCE_SPACE_TYPE_LOCAL
       \<and> last (effects s2) = EmitReferenceSpaceChanged
       \<and> updateAppSpaceFrames [(2000,
            \<lparr>createAppSpace = Some 34, createLocalSpace = Some 35, createStageSpace = Some 36,
             locateStageInLocal = Some identityPose, createFloorSpace = Some 37\<rparr>)] s2 = Inr s2)
   \<and> vec_y (position (floorPose (identityPose\<lparr>position :=
                 \<lparr>vec_x = 0, vec_y = 0x3FC00000, vec_z = 0\<rparr>\<rparr>))) = 0x3FC00000"
proof -
  define s0 where "s0 = sampleManager\<lparr>m_isEmulatingLocalFloor := False,
             m_isFloorResetPending := False, m_appSpace := XR_NULL_HANDLE\<rparr>"
  define loc where "loc = identityPose\<lparr>position :=
                 \<lparr>vec_x = 0, vec_y = 0x3FC00000, vec_z = 0\<rparr>\<rparr>"
  define rt where "rt = \<lparr>createAppSpace = None, createLocalSpace = Some (31 :: nat),
             createStageSpace = Some (32 :: nat), locateStageInLocal = Some loc,
             createFloorSpace = Some (33 :: nat)\<rparr>"
  define rn where "rn = \<lparr>createAppSpace = None, createLocalSpace = Some (31 :: nat),
             createStageSpace = Some (32 :: nat), locateStageInLocal = Some loc,
             createFloorSpace = None\<rparr>"
  have a: "m_session s0 \<noteq> XR_NULL_HANDLE"
    by (simp add: s0_def sampleManager_def XR_NULL_HANDLE_def)
  have b: "m_requestedReferenceSpace s0 = XR_REFERENCE_SPACE_TYPE_LOCAL_FLOOR_EXT"
    by (simp add: s0_def sampleManager_def)
  have c: "\<not> isReferenceSpaceAvailable s0 XR_REFERENCE_SPACE_TYPE_LOCAL_FLOOR_EXT"
    by (simp add: s0_def sampleManager_def isReferenceSpaceAvailable_def)
  have d: "isReferenceSpaceAvailable s0 XR_REFERENCE_SPACE_TYPE_STAGE"
    by (simp add: s0_def sampleManager_def isReferenceSpaceAvailable_def)
  have r: "createLocalSpace rt = Some 31" "createStageSpace rt = Some 32"
      "locateStageInLocal rt = Some loc"
    by (simp_all add: rt_def)
  have r4: "createFloorSpace rt = Some 33" by (simp add: rt_def)
  have n: "createLocalSpace rn = Some 31" "createStageSpace rn = Some 32"
      "locateStageInLocal rn = Some loc"
    by (simp_all add: rn_def)
  have n4: "createFloorSpace rn = None" by (simp add: rn_def)
  from emulated_floor_height [OF a b c d r, of 11 1000, unfolded r4 option.case]
  obtain s1 s2 where t: "setupAppSpace (Some 11) s0 = Inr (True, s1)"
      "updateAppSpace 1000 rt s1 = Inr s2" "m_appSpace s2 = 33"
      "m_referenceSpace s2 = XR_REFERENCE_SPACE_TYPE_LOCAL_FLOOR_EXT"
      "effects s2 = effects s1
              @ [XrCreateReferenceSpace XR_REFERENCE_SPACE_TYPE_LOCAL identityPose (Some 31),
                 XrCreateReferenceSpace XR_REFERENCE_SPACE_TYPE_STAGE identityPose (Some 32),
                 XrLocateSpace 32 31 1000 (Some loc),
                 XrDestroySpace 31, XrDestroySpace 32,
                 XrCreateReferenceSpace XR_REFERENCE_SPACE_TYPE_LOCAL (floorPose loc) (Some 33),
                 XrDestroySpace 11,
                 EmitReferenceSpaceChanged]"
      "vec_y (position (floorPose loc)) = vec_y (position loc)"
    by blast
  from t(5) have m: "XrCreateReferenceSpace XR_REFERENCE_SPACE_TYPE_LOCAL (floorPose loc) (Some 33)
      \<in> set (effects s2)" "last (effects s2) = EmitReferenceSpaceChanged"
    by simp_all
  have y: "vec_y (position (floorPose loc)) = 0x3FC00000"
    using t(6) by (simp add: loc_def)
  from emulated_floor_height [OF a b c d n, of 11 1000, unfolded n4 option.case]
  obtain u1 u2 where u: "setupAppSpace (Some 11) s0 = Inr (True, u1)"
      "updateAppSpace 1000 rn u1 = Inr u2" "m_appSpace u2 = 11"
      "m_referenceSpace u2 = XR_REFERENCE_SPACE_TYPE_LOCAL"
      "m_requestedReferenceSpace u2 = XR_REFERENCE_SPACE_TYPE_LOCAL"
      "effects u2 = effects u1
              @ [XrCreateReferenceSpace XR_REFERENCE_SPACE_TYPE_LOCAL identityPose (Some 31),
                 XrCreateReferenceSpace XR_REFERENCE_SPACE_TYPE_STAGE identityPose (Some 32),
                 XrLocateSpace 32 31 1000 (Some loc),
                 XrDestroySpace 31, XrDestroySpace 32,
                 XrCreateReferenceSpace XR_REFERENCE_SPACE_TYPE_LOCAL (floorPose loc) None,
                 EmitReferenceSpaceChanged]"
      "\<forall>frames. updateAppSpaceFrames frames u2 = Inr u2"
    by blast
  from u(6) have ul: "last (effects u2) = EmitReferenceSpaceChanged" by simp
  from u(7) have uf: "updateAppSpaceFrames [(2000,
            \<lparr>createAppSpace = Some 34, createLocalSpace = Some 35, createStageSpace = Some 36,
             locateStageInLocal = Some identityPose, createFloorSpace = Some 37\<rparr>)] u2 = Inr u2"
    by blast
  have one: "\<exists>s1 s2.
         setupAppSpace (Some 11) s0 = Inr (True, s1)
       \<and> updateAppSpace 1000 rt s1 = Inr s2
       \<and> m_appSpace s2 = 33
       \<and> m_referenceSpace s2 = XR_REFERENCE_SPACE_TYPE_LOCAL_FLOOR_EXT
       \<and> XrCreateReferenceSpace XR_REFERENCE_SPACE_TYPE_LOCAL (floorPose loc) (Some 33)
            \<in> set (effects s2)
       \<and> last (effects s2) = EmitReferenceSpaceChanged"
    using t(1-4) m by blast
  have two: "\<exists>s1 s2.
         setupAppSpace (Some 11) s0 = Inr (True, s1)
       \<and> updateAppSpace 1000 rn s1 = Inr s2
       \<and> m_appSpace s2 = 11
       \<and> m_referenceSpace s2 = XR_REFERENCE_SPACE_TYPE_LOCAL
       \<and> m_requestedReferenceSpace s2 = XR_REFERENCE_SPACE_TYPE_LOCAL
       \<and> last (effects s2) = EmitReferenceSpaceChanged
       \<and> updateAppSpaceFrames [(2000,
            \<lparr>createAppSpace = Some 34, createLocalSpace = Some 35, createStageSpace = Some 36,
             locateStageInLocal = Some identityPose, createFloorSpace = Some 37\<rparr>)] s2 = Inr s2"
    using u(1-5) ul uf by blast
  from a b c d one two y show ?thesis
    unfolding s0_def loc_def rt_def rn_def by blast
qed
subsection \<open>The steps of renderLayer\<close>


lemma viewCountAsserts_perform [simp]:
  "viewCountAsserts n (perform e s) = viewCountAsserts n s"
  by (simp add: viewCountAsserts_def perform_def)

lemma viewCountAsserts_effects [simp]:
  "viewCountAsserts n (s\<lparr>effects := es\<rparr>) = viewCountAsserts n s"
  by (simp add: viewCountAsserts_def)








subsection \<open>The animation step\<close>





end
